theory Spec2Isabelle
  imports Main "HOL-Library.Word"
begin

unbundle bit_operations_syntax

section \<open>Package tpkt: frame detection and frame reading\<close>

type_synonym byte = "8 word"

text \<open>\<^verbatim>\<open>type Action int\<close> with its three constants.\<close>

datatype Action = ActionUnknown | ActionFastPath | ActionX224

text \<open>\<^verbatim>\<open>type PduInfo struct { Action Action; Length int }\<close>\<close>

record PduInfo =
  Action :: Action
  Length :: int

text \<open>
  The error values that \<^verbatim>\<open>FindPduSize\<close> and \<^verbatim>\<open>ReadFrame\<close> can return.
  \<^item> \<open>EOF\<close> and \<open>ErrUnexpectedEOF\<close> are \<^verbatim>\<open>io.EOF\<close> and \<^verbatim>\<open>io.ErrUnexpectedEOF\<close>;
  \<^item> \<open>ErrInsufficientData\<close> is the package variable of that name;
  \<^item> \<open>ErrInvalidAction c h\<close> is \<^verbatim>\<open>ErrInvalidAction\<close> wrapped with the action code and the header byte;
  \<^item> \<open>ErrInvalidLength n\<close> is \<^verbatim>\<open>ErrInvalidLength\<close> wrapped with the TPKT length read;
  \<^item> \<open>ErrTPKTVersion b\<close> is the "invalid TPKT header version" error, with the byte found;
  \<^item> \<open>ErrParseFastPath e\<close> and \<open>ErrParseTPKT e\<close> are the two "failed to parse ... header" wrappers of
    \<^verbatim>\<open>ReadFrame\<close>;
  \<^item> \<open>ErrPayloadSize\<close> is "invalid TPKT payload size calculated";
  \<^item> \<open>ErrOther n\<close> stands for any other error the underlying reader returns;
  \<^item> \<open>SyntaxError m\<close> and \<open>StructuralError m\<close> are the two error types of \<^verbatim>\<open>encoding/asn1\<close>, with
    their message, and \<open>ErrAsn1 m\<close> an error that package makes with \<^verbatim>\<open>errors.New\<close>;
  \<^item> \<open>ErrTrailingData n\<close> is the "trailing data after PDU: n bytes" error of \<^verbatim>\<open>Unmarshal\<close>.
\<close>

datatype error =
    EOF
  | ErrUnexpectedEOF
  | ErrInsufficientData
  | ErrInvalidAction byte byte
  | ErrInvalidLength nat
  | ErrTPKTVersion byte
  | ErrParseFastPath error
  | ErrParseTPKT error
  | ErrPayloadSize
  | ErrOther nat
  | SyntaxError string
  | StructuralError string
  | ErrAsn1 string
  | ErrTrailingData nat

definition MinHeaderSize :: nat where
  "MinHeaderSize = 1"

definition FastPathMinSize :: nat where
  "FastPathMinSize = 2"

definition FastPathLargeSize :: nat where
  "FastPathLargeSize = 3"

definition TPKTHeaderSize :: nat where
  "TPKTHeaderSize = 4"

text \<open>
  \<^verbatim>\<open>binary.BigEndian.Uint16(b)\<close>: \<^verbatim>\<open>uint16(b[1]) | uint16(b[0])<<8\<close>, on a slice of two bytes.
\<close>

definition BigEndian_Uint16 :: "byte list \<Rightarrow> 16 word" where
  "BigEndian_Uint16 b = (ucast (b ! 1) :: 16 word) OR push_bit 8 (ucast (b ! 0) :: 16 word)"

text \<open>
  \<^verbatim>\<open>FindPduSize(buf)\<close>. Every index read is guarded by the length check that precedes it in
  the source, so no read is out of range.
\<close>

definition FindPduSize :: "byte list \<Rightarrow> error + PduInfo" where
  "FindPduSize buf =
    (if length buf < MinHeaderSize then Inl ErrInsufficientData
     else
       let fpOutputHeader = buf ! 0;
           actionCode = fpOutputHeader AND 3
       in
         if actionCode = 0 then
           (if length buf < FastPathMinSize then Inl ErrInsufficientData
            else
              let a = buf ! 1 in
                if a AND 0x80 \<noteq> 0 then
                  (if length buf < FastPathLargeSize then Inl ErrInsufficientData
                   else
                     let b = buf ! 2;
                         len = (push_bit 8 (ucast (a AND 0x7F) :: 16 word)) OR (ucast b :: 16 word)
                     in
                       if len = 0 then Inr \<lparr>Action = ActionFastPath, Length = 0\<rparr>
                       else Inr \<lparr>Action = ActionFastPath, Length = uint len\<rparr>)
                else
                  let len = (ucast a :: 16 word) in
                    if len = 0 then Inr \<lparr>Action = ActionFastPath, Length = 0\<rparr>
                    else Inr \<lparr>Action = ActionFastPath, Length = uint len\<rparr>)
         else if actionCode = 3 then
           (if length buf < TPKTHeaderSize then Inl ErrInsufficientData
            else if buf ! 0 \<noteq> 0x03 then Inl (ErrTPKTVersion (buf ! 0))
            else
              let len = BigEndian_Uint16 (take 2 (drop 2 buf)) in
                if unat len < TPKTHeaderSize then Inl (ErrInvalidLength (unat len))
                else Inr \<lparr>Action = ActionX224, Length = uint len\<rparr>)
         else Inl (ErrInvalidAction actionCode fpOutputHeader))"

subsection \<open>The reader\<close>

text \<open>
  An \<^verbatim>\<open>io.Reader\<close> over a finite stream: the bytes still to come, in the chunks in which the
  transport will hand them over (one chunk per \<^verbatim>\<open>Read\<close> call at most, an empty chunk being a
  \<^verbatim>\<open>Read\<close> that returns \<^verbatim>\<open>0, nil\<close>), and the error that \<^verbatim>\<open>Read\<close> returns once the chunks are
  used up: \<open>EOF\<close> for a stream that was closed cleanly, another error for a fault.
\<close>

record reader =
  chunks :: "byte list list"
  fin :: error

definition pending :: "reader \<Rightarrow> byte list" where
  "pending r = concat (chunks r)"

text \<open>
  \<^verbatim>\<open>r.Read(p)\<close> with \<^verbatim>\<open>len(p) = n\<close>: the bytes read, the error and the reader afterwards.
\<close>

definition Read :: "nat \<Rightarrow> reader \<Rightarrow> (byte list \<times> error option) \<times> reader" where
  "Read n r =
    (case chunks r of
       [] \<Rightarrow> (([], Some (fin r)), r)
     | c # cs \<Rightarrow>
         let k = min n (length c) in
           ((take k c, None),
            r\<lparr>chunks := (if k < length c then drop k c # cs else cs)\<rparr>))"

text \<open>
  The loop of \<^verbatim>\<open>io.ReadAtLeast(r, buf, min)\<close> for \<^verbatim>\<open>min = len(buf) = n\<close>, which is what
  \<^verbatim>\<open>io.ReadFull\<close> calls:
  \<^verbatim>\<open>for n < min && err == nil { nn, err = r.Read(buf[n:]); n += nn }\<close>.
  \<open>acc\<close> is the part of the buffer filled so far.
\<close>

function ReadFull_loop :: "nat \<Rightarrow> byte list \<Rightarrow> reader \<Rightarrow> (byte list \<times> error option) \<times> reader" where
  "ReadFull_loop n acc r =
    (if length acc < n then
       (case Read (n - length acc) r of
          ((bs, None), r') \<Rightarrow> ReadFull_loop n (acc @ bs) r'
        | ((bs, Some err), r') \<Rightarrow> ((acc @ bs, Some err), r'))
     else ((acc, None), r))"
  by pat_completeness auto
termination
proof (relation "measure (\<lambda>(n, acc, r). length (concat (chunks r)) + length (chunks r))")
  show "wf (measure (\<lambda>(n, acc, r). length (concat (chunks r)) + length (chunks r)))"
    by simp
next
  fix n :: nat and acc :: "byte list" and r :: reader
    and x :: "byte list \<times> error option" and r' :: reader and bs :: "byte list" and e :: "error option"
  assume lt: "length acc < n"
    and rd: "(x, r') = Read (n - length acc) r"
    and x: "(bs, e) = x"
    and e: "e = None"
  show "((n, acc @ bs, r'), (n, acc, r))
        \<in> measure (\<lambda>(n, acc, r). length (concat (chunks r)) + length (chunks r))"
  proof (cases "chunks r")
    case Nil
    with rd x e show ?thesis by (simp add: Read_def)
  next
    case (Cons c cs)
    with rd x lt show ?thesis
      by (cases "c = []") (auto simp: Read_def Let_def min_def)
  qed
qed

declare ReadFull_loop.simps [simp del]

text \<open>
  \<^verbatim>\<open>io.ReadFull(r, buf)\<close> with \<^verbatim>\<open>len(buf) = n\<close>: after the loop, \<^verbatim>\<open>ReadAtLeast\<close> clears the error
  when the buffer is full and turns \<^verbatim>\<open>io.EOF\<close> after a partial read into
  \<^verbatim>\<open>io.ErrUnexpectedEOF\<close>.
\<close>

definition ReadFull :: "nat \<Rightarrow> reader \<Rightarrow> (byte list \<times> error option) \<times> reader" where
  "ReadFull n r =
    (case ReadFull_loop n [] r of
       ((bs, err), r') \<Rightarrow>
         if length bs \<ge> n then ((bs, None), r')
         else if length bs > 0 \<and> err = Some EOF then ((bs, Some ErrUnexpectedEOF), r')
         else ((bs, err), r'))"

subsection \<open>Reading one frame\<close>

text \<open>
  \<^verbatim>\<open>ReadFrame\<close> threads the reader through up to four reads and returns early on every
  error. The model passes the reader explicitly: a computation takes the reader and returns
  either an error or a value, together with the reader afterwards.
\<close>

type_synonym 'a io = "reader \<Rightarrow> (error + 'a) \<times> reader"

definition io_return :: "'a \<Rightarrow> 'a io" where
  "io_return x r = (Inr x, r)"

definition io_fail :: "error \<Rightarrow> 'a io" where
  "io_fail e r = (Inl e, r)"

definition io_bind :: "'a io \<Rightarrow> ('a \<Rightarrow> 'b io) \<Rightarrow> 'b io" where
  "io_bind m f r = (case m r of (Inl e, r') \<Rightarrow> (Inl e, r') | (Inr x, r') \<Rightarrow> f x r')"

text \<open>
  Every read of \<^verbatim>\<open>ReadFrame\<close> has the same shape:
  \<^verbatim>\<open>if _, err := io.ReadFull(reader, buf); err != nil {
       if err == io.EOF { return nil, ActionUnknown, io.ErrUnexpectedEOF }
       return nil, ActionUnknown, err }\<close>
\<close>

definition readFull_or_fail :: "nat \<Rightarrow> byte list io" where
  "readFull_or_fail n r =
    (case ReadFull n r of
       ((buf, None), r') \<Rightarrow> (Inr buf, r')
     | ((buf, Some err), r') \<Rightarrow>
         if err = EOF then (Inl ErrUnexpectedEOF, r') else (Inl err, r'))"

text \<open>\<^verbatim>\<open>ReadFrame(reader)\<close>: the frame and its action, or the error (with \<^verbatim>\<open>nil, ActionUnknown\<close>).\<close>

definition ReadFrame :: "(byte list \<times> Action) io" where
  "ReadFrame =
    io_bind (readFull_or_fail MinHeaderSize) (\<lambda>headerBuf.
      let fpOutputHeader = headerBuf ! 0;
          actionCode = fpOutputHeader AND 3
      in
        if actionCode = 0 then
          io_bind (readFull_or_fail (FastPathMinSize - MinHeaderSize)) (\<lambda>headerExtension.
            let headerBuf = headerBuf @ headerExtension;
                a = headerBuf ! 1
            in
              io_bind
                (if a AND 0x80 \<noteq> 0 then
                   io_bind (readFull_or_fail 1) (\<lambda>lengthExtension.
                     io_return (headerBuf @ lengthExtension))
                 else io_return headerBuf)
                (\<lambda>headerBuf.
                  case FindPduSize headerBuf of
                    Inl err \<Rightarrow> io_fail (ErrParseFastPath err)
                  | Inr pduInfo \<Rightarrow>
                      io_bind (readFull_or_fail (nat (Length pduInfo))) (\<lambda>frameBuffer.
                        io_return (headerBuf @ frameBuffer, ActionFastPath))))
        else if actionCode = 3 then
          io_bind (readFull_or_fail (TPKTHeaderSize - MinHeaderSize)) (\<lambda>headerExtension.
            let headerBuf = headerBuf @ headerExtension in
              case FindPduSize headerBuf of
                Inl err \<Rightarrow> io_fail (ErrParseTPKT err)
              | Inr pduInfo \<Rightarrow>
                  let payloadSize = Length pduInfo - int TPKTHeaderSize in
                    if payloadSize < 0 then io_fail ErrPayloadSize
                    else
                      io_bind
                        (if payloadSize > 0 then readFull_or_fail (nat payloadSize)
                         else io_return (replicate (nat payloadSize) 0))
                        (\<lambda>frameBuffer. io_return (headerBuf @ frameBuffer, ActionX224)))
        else io_fail (ErrInvalidAction actionCode fpOutputHeader))"

subsection \<open>What \<^verbatim>\<open>ReadFrame\<close> does, read off the pending bytes\<close>

text \<open>
  \<^verbatim>\<open>ReadFrame\<close> maps \<^verbatim>\<open>io.EOF\<close> to \<^verbatim>\<open>io.ErrUnexpectedEOF\<close> at every read and passes any
  other error through.
\<close>

definition eof_err :: "error \<Rightarrow> error" where
  "eof_err e = (if e = EOF then ErrUnexpectedEOF else e)"

text \<open>
  The extent of the first frame of a stream \<open>s\<close>: its size and action, or the error, where \<open>e\<close>
  is the error reported when the stream runs out. This is not part of the program: it is the
  description against which \<open>ReadFrame\<close> is proved (lemma \<open>ReadFrame_frame_result\<close>), whatever
  the chunks in which the reader delivers the stream.
\<close>

definition frame_extent :: "byte list \<Rightarrow> error \<Rightarrow> error + nat \<times> Action" where
  "frame_extent s e =
    (if s = [] then Inl e
     else if s ! 0 AND 3 = 0 then
       (if length s < 2 then Inl e
        else if s ! 1 AND 0x80 = 0 then
          (if length s < 2 + unat (s ! 1) then Inl e
           else Inr (2 + unat (s ! 1), ActionFastPath))
        else if length s < 3 then Inl e
        else if length s < 3 + (unat (s ! 1 AND 0x7F) * 256 + unat (s ! 2)) then Inl e
        else Inr (3 + (unat (s ! 1 AND 0x7F) * 256 + unat (s ! 2)), ActionFastPath))
     else if s ! 0 AND 3 = 3 then
       (if length s < 4 then Inl e
        else if s ! 0 \<noteq> 3 then Inl (ErrParseTPKT (ErrTPKTVersion (s ! 0)))
        else if unat (s ! 2) * 256 + unat (s ! 3) < 4
          then Inl (ErrParseTPKT (ErrInvalidLength (unat (s ! 2) * 256 + unat (s ! 3))))
        else if length s < unat (s ! 2) * 256 + unat (s ! 3) then Inl e
        else Inr (unat (s ! 2) * 256 + unat (s ! 3), ActionX224))
     else Inl (ErrInvalidAction (s ! 0 AND 3) (s ! 0)))"

definition frame_result :: "reader \<Rightarrow> (error + byte list \<times> Action) \<times> reader \<Rightarrow> bool" where
  "frame_result r res =
    (case frame_extent (pending r) (eof_err (fin r)) of
       Inl e \<Rightarrow> fst res = Inl e
     | Inr (n, a) \<Rightarrow> fst res = Inr (take n (pending r), a) \<and>
         pending (snd res) = drop n (pending r) \<and> fin (snd res) = fin r)"

section \<open>Package proxy: the WebSocket byte-stream adapter\<close>

text \<open>\<^verbatim>\<open>websocket.BinaryMessage\<close>\<close>

definition BinaryMessage :: int where
  "BinaryMessage = 2"

text \<open>
  \<^verbatim>\<open>func (w *wsReadWriteCloser) Write(p []byte) (int, error) {
       return len(p), w.ws.WriteMessage(websocket.BinaryMessage, p) }\<close>
  The connection \<^verbatim>\<open>w.ws\<close> belongs to the WebSocket library: its state is a type parameter and
  its \<^verbatim>\<open>WriteMessage\<close> method a parameter, which returns the error (\<open>None\<close> for \<^verbatim>\<open>nil\<close>) and
  the connection afterwards.
\<close>

definition Write ::
  "('ws \<Rightarrow> int \<Rightarrow> byte list \<Rightarrow> error option \<times> 'ws) \<Rightarrow> 'ws \<Rightarrow> byte list \<Rightarrow> (int \<times> error option) \<times> 'ws" where
  "Write WriteMessage ws p =
    (case WriteMessage ws BinaryMessage p of (err, ws') \<Rightarrow> ((int (length p), err), ws'))"

section \<open>Package rdcleanpath: the handshake PDU\<close>

text \<open>
  \<^verbatim>\<open>type Err struct\<close> and \<^verbatim>\<open>type Pdu struct\<close>. A Go \<^verbatim>\<open>string\<close> is a sequence of bytes of any
  content: it is a byte list here. A Go slice can be \<^verbatim>\<open>nil\<close>, which is not the empty slice: the
  two slice fields are options, \<open>None\<close> for \<^verbatim>\<open>nil\<close>. The zero value of a field (0, the empty
  string, \<open>None\<close>, the all-zero \<open>Err\<close>) is what Go has for a field that was never set.
\<close>

type_synonym gostring = "byte list"

record Err =
  ErrorCode :: int
  HttpStatusCode :: int
  WsaLastError :: int
  TlsAlertCode :: byte

record Pdu =
  Version :: int
  Error :: Err
  Destination :: gostring
  ProxyAuth :: gostring
  ServerAuth :: gostring
  PreconnectionBlob :: gostring
  X224ConnectionPdu :: "byte list option"
  ServerCertChain :: "byte list list option"
  ServerAddr :: gostring

text \<open>\<^verbatim>\<open>NewResp(serverAddr, x224Pdu, x509Chain)\<close>; the error returned is always \<^verbatim>\<open>nil\<close>.\<close>

definition NewResp :: "gostring \<Rightarrow> byte list option \<Rightarrow> byte list list option \<Rightarrow> Pdu \<times> error option" where
  "NewResp serverAddr x224Pdu x509Chain =
    (let addr = serverAddr in
       (\<lparr>Version = 3389 + 1,
         Error = \<lparr>ErrorCode = 0, HttpStatusCode = 0, WsaLastError = 0, TlsAlertCode = 0\<rparr>,
         Destination = [],
         ProxyAuth = [],
         ServerAuth = [],
         PreconnectionBlob = [],
         X224ConnectionPdu = x224Pdu,
         ServerCertChain = x509Chain,
         ServerAddr = addr\<rparr>,
        None))"

section \<open>Package encoding/asn1 of the Go standard library, as the handshake PDU uses it\<close>

text \<open>
  \<^verbatim>\<open>Pdu.Marshal\<close> and \<^verbatim>\<open>Unmarshal\<close> hand the work to \<^verbatim>\<open>asn1.Marshal\<close> and
  \<^verbatim>\<open>asn1.Unmarshal\<close>, which walk the struct by reflection. This section follows the library's
  functions (\<^verbatim>\<open>asn1.go\<close>, \<^verbatim>\<open>marshal.go\<close>, \<^verbatim>\<open>common.go\<close>) by name. Reflection is replaced by
  passing, for each field, what the library reads off the field's type: the result of
  \<^verbatim>\<open>getUniversalType\<close>, the zero value, and the parser or encoder of the body. A parser takes the
  bytes from the current offset on and returns the bytes after the new offset: the library
  never looks back before the offset, and compares the offset with \<^verbatim>\<open>len(bytes)\<close> only.
\<close>

subsection \<open>Tags and lengths\<close>

definition ClassUniversal :: nat where "ClassUniversal = 0"
definition ClassContextSpecific :: nat where "ClassContextSpecific = 2"

definition TagInteger :: nat where "TagInteger = 2"
definition TagOctetString :: nat where "TagOctetString = 4"
definition TagUTF8String :: nat where "TagUTF8String = 12"
definition TagSequence :: nat where "TagSequence = 16"
definition TagNumericString :: nat where "TagNumericString = 18"
definition TagPrintableString :: nat where "TagPrintableString = 19"
definition TagT61String :: nat where "TagT61String = 20"
definition TagIA5String :: nat where "TagIA5String = 22"
definition TagUTCTime :: nat where "TagUTCTime = 23"
definition TagGeneralizedTime :: nat where "TagGeneralizedTime = 24"
definition TagGeneralString :: nat where "TagGeneralString = 27"
definition TagBMPString :: nat where "TagBMPString = 30"

text \<open>\<^verbatim>\<open>type tagAndLength struct { class, tag, length int; isCompound bool }\<close>\<close>

record tagAndLength =
  tal_class :: nat
  tal_tag :: nat
  tal_length :: nat
  tal_isCompound :: bool

text \<open>
  \<^verbatim>\<open>parseBase128Int\<close>: the loop over \<open>shifted\<close>, with the 64-bit accumulator \<open>ret64\<close> (at most 35
  bits are ever in it).
\<close>

fun parseBase128Int_loop :: "nat \<Rightarrow> nat \<Rightarrow> byte list \<Rightarrow> error + nat \<times> byte list" where
  "parseBase128Int_loop shifted ret64 [] = Inl (SyntaxError ''truncated base 128 integer'')"
| "parseBase128Int_loop shifted ret64 (b # bytes) =
    (if shifted = 5 then Inl (StructuralError ''base 128 integer too large'')
     else if shifted = 0 \<and> b = 0x80 then Inl (SyntaxError ''integer is not minimally encoded'')
     else
       let ret64 = push_bit 7 ret64 OR unat (b AND 0x7F) in
         if b AND 0x80 = 0 then
           (if ret64 > 2147483647 then Inl (StructuralError ''base 128 integer too large'')
            else Inr (ret64, bytes))
         else parseBase128Int_loop (shifted + 1) ret64 bytes)"

definition parseBase128Int :: "byte list \<Rightarrow> error + nat \<times> byte list" where
  "parseBase128Int bytes = parseBase128Int_loop 0 0 bytes"

text \<open>
  The loop of \<^verbatim>\<open>parseTagAndLength\<close> over the \<open>numBytes\<close> bytes of a long-form length; the first
  argument counts the bytes still to read.
\<close>

fun parseLength_loop :: "nat \<Rightarrow> nat \<Rightarrow> byte list \<Rightarrow> error + nat \<times> byte list" where
  "parseLength_loop 0 len bytes = Inr (len, bytes)"
| "parseLength_loop (Suc i) len [] = Inl (SyntaxError ''truncated tag or length'')"
| "parseLength_loop (Suc i) len (b # bytes) =
    (if len \<ge> 2 ^ 23 then Inl (StructuralError ''length too large'')
     else
       let len = push_bit 8 len OR unat b in
         if len = 0 then Inl (StructuralError ''superfluous leading zeros in length'')
         else parseLength_loop i len bytes)"

text \<open>
  \<^verbatim>\<open>parseTagAndLength\<close>, in three steps: the first byte, the tag number when the first byte
  announces a long one, and the length.
\<close>

definition parseLongTag :: "nat \<Rightarrow> byte list \<Rightarrow> error + nat \<times> byte list" where
  "parseLongTag tag0 bytes =
    (if tag0 = 0x1F then
       (case parseBase128Int bytes of
          Inl err \<Rightarrow> Inl err
        | Inr (tg, bytes') \<Rightarrow>
            if tg < 0x1F then Inl (SyntaxError ''non-minimal tag'')
            else Inr (tg, bytes'))
     else Inr (tag0, bytes))"

definition parseLength :: "byte list \<Rightarrow> error + nat \<times> byte list" where
  "parseLength bytes =
    (case bytes of
       [] \<Rightarrow> Inl (SyntaxError ''truncated tag or length'')
     | b # bytes' \<Rightarrow>
         if b AND 0x80 = 0 then Inr (unat (b AND 0x7F), bytes')
         else
           let numBytes = unat (b AND 0x7F) in
             if numBytes = 0 then Inl (SyntaxError ''indefinite length found (not DER)'')
             else
               (case parseLength_loop numBytes 0 bytes' of
                  Inl err \<Rightarrow> Inl err
                | Inr (len, bytes'') \<Rightarrow>
                    if len < 0x80 then Inl (StructuralError ''non-minimal length'')
                    else Inr (len, bytes'')))"

definition parseTagAndLength :: "byte list \<Rightarrow> error + tagAndLength \<times> byte list" where
  "parseTagAndLength bytes =
    (case bytes of
       [] \<Rightarrow> Inl (ErrAsn1 ''asn1: internal error in parseTagAndLength'')
     | b # bytes1 \<Rightarrow>
         (case parseLongTag (unat (b AND 0x1F)) bytes1 of
            Inl err \<Rightarrow> Inl err
          | Inr (tg, bytes2) \<Rightarrow>
              (case parseLength bytes2 of
                 Inl err \<Rightarrow> Inl err
               | Inr (len, bytes3) \<Rightarrow>
                   Inr (\<lparr>tal_class = unat (drop_bit 6 b), tal_tag = tg, tal_length = len,
                         tal_isCompound = (b AND 0x20 = 0x20)\<rparr>, bytes3))))"

subsection \<open>Field parameters and universal types\<close>

text \<open>
  \<^verbatim>\<open>type fieldParameters\<close>, with the members that the struct tags of \<^verbatim>\<open>Pdu\<close> and \<^verbatim>\<open>Err\<close> can set
  (\<^verbatim>\<open>tag:n\<close>, \<^verbatim>\<open>explicit\<close>, \<^verbatim>\<open>optional\<close>, \<^verbatim>\<open>utf8\<close>); the others (\<^verbatim>\<open>application\<close>, \<^verbatim>\<open>private\<close>,
  \<^verbatim>\<open>defaultValue\<close>, \<^verbatim>\<open>timeType\<close>, \<^verbatim>\<open>set\<close>, \<^verbatim>\<open>omitEmpty\<close>) are unset in every field and their branches
  are left out.
\<close>

record fieldParameters =
  optional :: bool
  explicit :: bool
  tag :: "nat option"
  stringType :: nat

definition noParams :: fieldParameters where
  "noParams = \<lparr>optional = False, explicit = False, tag = None, stringType = 0\<rparr>"

text \<open>The result of \<^verbatim>\<open>getUniversalType\<close>: \<^verbatim>\<open>(matchAny, tagNumber, isCompound, ok)\<close>.\<close>

record universalType =
  matchAny :: bool
  tagNumber :: nat
  isCompound :: bool
  ok :: bool

definition ut_int :: universalType where
  "ut_int = \<lparr>matchAny = False, tagNumber = TagInteger, isCompound = False, ok = True\<rparr>"

definition ut_struct :: universalType where
  "ut_struct = \<lparr>matchAny = False, tagNumber = TagSequence, isCompound = True, ok = True\<rparr>"

definition ut_bytes :: universalType where
  "ut_bytes = \<lparr>matchAny = False, tagNumber = TagOctetString, isCompound = False, ok = True\<rparr>"

definition ut_slice :: universalType where
  "ut_slice = \<lparr>matchAny = False, tagNumber = TagSequence, isCompound = True, ok = True\<rparr>"

definition ut_string :: universalType where
  "ut_string = \<lparr>matchAny = False, tagNumber = TagPrintableString, isCompound = False, ok = True\<rparr>"

text \<open>\<^verbatim>\<open>uint8\<close> is no kind that \<^verbatim>\<open>getUniversalType\<close> knows: it returns \<^verbatim>\<open>false, 0, false, false\<close>.\<close>

definition ut_uint8 :: universalType where
  "ut_uint8 = \<lparr>matchAny = False, tagNumber = 0, isCompound = False, ok = False\<rparr>"

subsection \<open>\<^verbatim>\<open>parseField\<close>\<close>

text \<open>
  \<^verbatim>\<open>parseField(v, bytes, initOffset, params)\<close> is one function in the library; here it is cut at
  its comment "We have unwrapped any explicit tagging at this point" into the part before and
  the part after, the latter with the two values it computes on the way, the universal tag
  expected and whether class, tag and compound bit match.

  \<open>ut\<close> is \<^verbatim>\<open>getUniversalType(v.Type())\<close>, \<open>zero\<close> the value \<open>v\<close> has before the call (the target is
  always freshly zeroed, and \<^verbatim>\<open>setDefaultValue\<close> leaves it untouched and answers
  \<^verbatim>\<open>params.optional\<close>, no default value being given in any tag), and \<open>body\<close> the parser that the
  kind of \<open>v\<close> selects in the final switch, from the universal tag and \<^verbatim>\<open>innerBytes\<close>. The result
  is the value and the bytes from the new offset on.
\<close>

text \<open>The special case for strings: every ASN.1 string type maps to the Go type \<^verbatim>\<open>string\<close>.\<close>

definition universalTag_of :: "universalType \<Rightarrow> fieldParameters \<Rightarrow> tagAndLength \<Rightarrow> nat" where
  "universalTag_of ut params t =
    (if tagNumber ut = TagPrintableString then
       (if tal_class t = ClassUniversal then
          (if tal_tag t \<in> {TagIA5String, TagGeneralString, TagT61String,
                TagUTF8String, TagNumericString, TagBMPString}
           then tal_tag t else tagNumber ut)
        else if stringType params \<noteq> 0 then stringType params
        else tagNumber ut)
     else tagNumber ut)"

text \<open>
  The negation of the test \<^verbatim>\<open>!matchAnyClassAndTag && (t.class != expectedClass || t.tag !=
  expectedTag) || (!matchAny && t.isCompound != compoundType)\<close>, where a tag that is not explicit
  makes the expected class context-specific and the expected tag \<^verbatim>\<open>*params.tag\<close>.
\<close>

definition tagsMatch :: "universalType \<Rightarrow> fieldParameters \<Rightarrow> tagAndLength \<Rightarrow> bool" where
  "tagsMatch ut params t =
    (let implicit = (\<not> explicit params \<and> tag params \<noteq> None);
         matchAnyClassAndTag = (matchAny ut \<and> \<not> implicit);
         expectedClass = (if implicit then ClassContextSpecific else ClassUniversal);
         expectedTag = (if implicit then the (tag params) else universalTag_of ut params t)
     in \<not> ((\<not> matchAnyClassAndTag \<and>
               (tal_class t \<noteq> expectedClass \<or> tal_tag t \<noteq> expectedTag)) \<or>
             (\<not> matchAny ut \<and> tal_isCompound t \<noteq> isCompound ut)))"

text \<open>
  After the unwrapping: \<open>t\<close> is the tag and length of the element itself and \<open>rest\<close> the bytes
  after them; \<open>bytes\<close> are the bytes from \<^verbatim>\<open>initOffset\<close> on, to which an optional field that is
  not there goes back.
\<close>

definition parseField_unwrapped ::
  "universalType \<Rightarrow> 'v \<Rightarrow> (nat \<Rightarrow> byte list \<Rightarrow> error + 'v) \<Rightarrow> fieldParameters \<Rightarrow> byte list
     \<Rightarrow> tagAndLength \<Rightarrow> byte list \<Rightarrow> error + 'v \<times> byte list" where
  "parseField_unwrapped ut zero body params bytes t rest =
    (if \<not> ok ut then Inl (StructuralError ''unknown Go type'')
     else if \<not> tagsMatch ut params t then
       (if optional params then Inr (zero, bytes)
        else Inl (StructuralError ''tags don't match''))
     else if tal_length t > length rest then Inl (SyntaxError ''data truncated'')
     else
       (case body (universalTag_of ut params t) (take (tal_length t) rest) of
          Inl err \<Rightarrow> Inl err
        | Inr v \<Rightarrow> Inr (v, drop (tal_length t) rest)))"

definition parseField ::
  "universalType \<Rightarrow> 'v \<Rightarrow> (nat \<Rightarrow> byte list \<Rightarrow> error + 'v) \<Rightarrow> fieldParameters \<Rightarrow> byte list
     \<Rightarrow> error + 'v \<times> byte list" where
  "parseField ut zero body params bytes =
    (if bytes = [] then
       (if optional params then Inr (zero, bytes) else Inl (SyntaxError ''sequence truncated''))
     else
       (case parseTagAndLength bytes of
          Inl err \<Rightarrow> Inl err
        | Inr (t, rest) \<Rightarrow>
            if explicit params then
              (if rest = [] then Inl (StructuralError ''explicit tag has no child'')
               else if tal_class t = ClassContextSpecific \<and> Some (tal_tag t) = tag params \<and>
                       (tal_length t = 0 \<or> tal_isCompound t) then
                 (if tal_length t > 0 then
                    (case parseTagAndLength rest of
                       Inl err \<Rightarrow> Inl err
                     | Inr (t', rest') \<Rightarrow> parseField_unwrapped ut zero body params bytes t' rest')
                  else Inl (StructuralError ''zero length explicit tag was not an asn1.Flag''))
               else if optional params then Inr (zero, bytes)
               else Inl (StructuralError ''explicitly tagged member didn't match''))
            else parseField_unwrapped ut zero body params bytes t rest))"

subsection \<open>Bodies\<close>

text \<open>\<^verbatim>\<open>checkInteger\<close> and \<^verbatim>\<open>parseInt64\<close> (\<^verbatim>\<open>int\<close> has 64 bits on the platforms the proxy runs on).\<close>

definition checkInteger :: "byte list \<Rightarrow> error option" where
  "checkInteger bytes =
    (if length bytes = 0 then Some (StructuralError ''empty integer'')
     else if length bytes = 1 then None
     else if (bytes ! 0 = 0 \<and> bytes ! 1 AND 0x80 = 0) \<or>
             (bytes ! 0 = 0xFF \<and> bytes ! 1 AND 0x80 = 0x80)
       then Some (StructuralError ''integer not minimally-encoded'')
     else None)"

definition parseInt64 :: "byte list \<Rightarrow> error + int" where
  "parseInt64 bytes =
    (case checkInteger bytes of
       Some err \<Rightarrow> Inl err
     | None \<Rightarrow>
         if length bytes > 8 then Inl (StructuralError ''integer too large'')
         else
           let ret = foldl (\<lambda>ret b. push_bit 8 ret OR ucast b) (0 :: 64 word) bytes;
               ret = push_bit (64 - length bytes * 8) ret;
               ret = signed_drop_bit (64 - length bytes * 8) ret
           in Inr (sint ret))"

text \<open>\<^verbatim>\<open>isPrintable(b, asterisk, ampersand)\<close>\<close>

definition isPrintable :: "byte \<Rightarrow> bool \<Rightarrow> bool \<Rightarrow> bool" where
  "isPrintable b asterisk ampersand \<longleftrightarrow>
     0x61 \<le> b \<and> b \<le> 0x7A \<or>
     0x41 \<le> b \<and> b \<le> 0x5A \<or>
     0x30 \<le> b \<and> b \<le> 0x39 \<or>
     0x27 \<le> b \<and> b \<le> 0x29 \<or>
     0x2B \<le> b \<and> b \<le> 0x2F \<or>
     b = 0x20 \<or>
     b = 0x3A \<or>
     b = 0x3D \<or>
     b = 0x3F \<or>
     (asterisk \<and> b = 0x2A) \<or>
     (ampersand \<and> b = 0x26)"

definition parsePrintableString :: "byte list \<Rightarrow> error + gostring" where
  "parsePrintableString bytes =
    (if list_all (\<lambda>b. isPrintable b True True) bytes then Inr bytes
     else Inl (SyntaxError ''PrintableString contains invalid character''))"

definition parseIA5String :: "byte list \<Rightarrow> error + gostring" where
  "parseIA5String bytes =
    (if list_all (\<lambda>b. b < 0x80) bytes then Inr bytes
     else Inl (SyntaxError ''IA5String contains invalid character''))"

definition isNumeric :: "byte \<Rightarrow> bool" where
  "isNumeric b \<longleftrightarrow> 0x30 \<le> b \<and> b \<le> 0x39 \<or> b = 0x20"

definition parseNumericString :: "byte list \<Rightarrow> error + gostring" where
  "parseNumericString bytes =
    (if list_all isNumeric bytes then Inr bytes
     else Inl (SyntaxError ''NumericString contains invalid character''))"

text \<open>
  \<^verbatim>\<open>utf8.Valid\<close>: the well-formed byte sequences of UTF-8 (no overlong form, no surrogate, nothing
  above U+10FFFF), which is what the table-driven loop of package \<^verbatim>\<open>unicode/utf8\<close> accepts.
\<close>

definition utf8_cont :: "byte \<Rightarrow> bool" where
  "utf8_cont b \<longleftrightarrow> 0x80 \<le> b \<and> b \<le> 0xBF"

fun utf8_Valid :: "byte list \<Rightarrow> bool" where
  "utf8_Valid [] = True"
| "utf8_Valid (b0 # bs) =
    (if b0 < 0x80 then utf8_Valid bs
     else if 0xC2 \<le> b0 \<and> b0 \<le> 0xDF then
       (case bs of
          b1 # r \<Rightarrow> utf8_cont b1 \<and> utf8_Valid r
        | _ \<Rightarrow> False)
     else if 0xE0 \<le> b0 \<and> b0 \<le> 0xEF then
       (case bs of
          b1 # b2 # r \<Rightarrow>
            (if b0 = 0xE0 then 0xA0 \<le> b1 \<and> b1 \<le> 0xBF
             else if b0 = 0xED then 0x80 \<le> b1 \<and> b1 \<le> 0x9F
             else utf8_cont b1) \<and>
            utf8_cont b2 \<and> utf8_Valid r
        | _ \<Rightarrow> False)
     else if 0xF0 \<le> b0 \<and> b0 \<le> 0xF4 then
       (case bs of
          b1 # b2 # b3 # r \<Rightarrow>
            (if b0 = 0xF0 then 0x90 \<le> b1 \<and> b1 \<le> 0xBF
             else if b0 = 0xF4 then 0x80 \<le> b1 \<and> b1 \<le> 0x8F
             else utf8_cont b1) \<and>
            utf8_cont b2 \<and> utf8_cont b3 \<and> utf8_Valid r
        | _ \<Rightarrow> False)
     else False)"

definition parseUTF8String :: "byte list \<Rightarrow> error + gostring" where
  "parseUTF8String bytes =
    (if utf8_Valid bytes then Inr bytes else Inl (ErrAsn1 ''asn1: invalid UTF-8 string''))"

text \<open>
  The string case of the final switch of \<^verbatim>\<open>parseField\<close>. The parsers of the three legacy string
  types (\<^verbatim>\<open>T61String\<close>, \<^verbatim>\<open>GeneralString\<close>, \<^verbatim>\<open>BMPString\<close>) transcode, differently from one release
  of Go to the next: they are the parameter \<open>legacy\<close>, from the tag and the bytes.
\<close>

definition parseString :: "(nat \<Rightarrow> byte list \<Rightarrow> error + gostring) \<Rightarrow> nat \<Rightarrow> byte list \<Rightarrow> error + gostring" where
  "parseString legacy universalTag innerBytes =
    (if universalTag = TagPrintableString then parsePrintableString innerBytes
     else if universalTag = TagNumericString then parseNumericString innerBytes
     else if universalTag = TagIA5String then parseIA5String innerBytes
     else if universalTag = TagT61String then legacy universalTag innerBytes
     else if universalTag = TagUTF8String then parseUTF8String innerBytes
     else if universalTag = TagGeneralString then legacy universalTag innerBytes
     else if universalTag = TagBMPString then legacy universalTag innerBytes
     else Inl (SyntaxError ''internal error: unknown string type''))"

text \<open>The \<^verbatim>\<open>[]byte\<close> case: a fresh slice of \<^verbatim>\<open>len(innerBytes)\<close> bytes, never \<^verbatim>\<open>nil\<close>.\<close>

definition parseBytes :: "nat \<Rightarrow> byte list \<Rightarrow> error + byte list option" where
  "parseBytes universalTag innerBytes = Inr (Some innerBytes)"

definition parseInt :: "nat \<Rightarrow> byte list \<Rightarrow> error + int" where
  "parseInt universalTag innerBytes = parseInt64 innerBytes"

text \<open>Never reached: \<^verbatim>\<open>parseField\<close> fails on \<^verbatim>\<open>uint8\<close> before it selects a body.\<close>

definition parseUint8 :: "nat \<Rightarrow> byte list \<Rightarrow> error + byte" where
  "parseUint8 universalTag innerBytes = Inl (StructuralError ''unsupported: uint8'')"

lemma parseBase128Int_loop_length:
  "parseBase128Int_loop shifted ret64 bytes = Inr (n, rest) \<Longrightarrow> length rest < length bytes"
  by (induction shifted ret64 bytes rule: parseBase128Int_loop.induct)
     (auto simp: Let_def split: if_splits)

lemma parseLength_loop_length:
  "parseLength_loop i len bytes = Inr (n, rest) \<Longrightarrow> length rest \<le> length bytes"
  by (induction i len bytes rule: parseLength_loop.induct)
     (auto simp: Let_def split: if_splits)

lemma parseLongTag_length:
  "parseLongTag tag0 bytes = Inr (tg, rest) \<Longrightarrow> length rest \<le> length bytes"
  by (auto simp: parseLongTag_def parseBase128Int_def split: if_splits sum.splits
      dest!: parseBase128Int_loop_length)

lemma parseLength_length:
  "parseLength bytes = Inr (len, rest) \<Longrightarrow> length rest < length bytes"
  by (auto simp: parseLength_def Let_def split: list.splits if_splits sum.splits
      dest!: parseLength_loop_length)

lemma parseTagAndLength_length:
  assumes "parseTagAndLength bytes = Inr (t, rest)"
  shows "length rest < length bytes"
proof -
  from assms obtain b bytes1 tg bytes2 len where
    "bytes = b # bytes1" "parseLongTag (unat (b AND 0x1F)) bytes1 = Inr (tg, bytes2)"
    "parseLength bytes2 = Inr (len, rest)"
    by (auto simp: parseTagAndLength_def split: list.splits sum.splits)
  then show ?thesis
    using parseLongTag_length[of "unat (b AND 0x1F)" bytes1 tg bytes2]
      parseLength_length[of bytes2 len rest] by simp
qed

text \<open>
  \<^verbatim>\<open>parseSequenceOf(bytes, sliceType, elemType)\<close> for \<^verbatim>\<open>elemType = []byte\<close>. The first loop counts the
  elements and checks their tags against \<^verbatim>\<open>getUniversalType(elemType)\<close>.
\<close>

function parseSequenceOf_count :: "byte list \<Rightarrow> error + nat" where
  "parseSequenceOf_count bytes =
    (if bytes = [] then Inr 0
     else
       (case parseTagAndLength bytes of
          Inl err \<Rightarrow> Inl err
        | Inr (t, rest) \<Rightarrow>
            let ttag =
                  (if tal_tag t \<in> {TagIA5String, TagGeneralString, TagT61String, TagUTF8String,
                        TagNumericString, TagBMPString} then TagPrintableString
                   else if tal_tag t \<in> {TagGeneralizedTime, TagUTCTime} then TagUTCTime
                   else tal_tag t)
            in
              if \<not> matchAny ut_bytes \<and>
                 (tal_class t \<noteq> ClassUniversal \<or> tal_isCompound t \<noteq> isCompound ut_bytes \<or>
                  ttag \<noteq> tagNumber ut_bytes) then
                Inl (StructuralError ''sequence tag mismatch'')
              else if tal_length t > length rest then Inl (SyntaxError ''truncated sequence'')
              else
                (case parseSequenceOf_count (drop (tal_length t) rest) of
                   Inl err \<Rightarrow> Inl err
                 | Inr numElements \<Rightarrow> Inr (numElements + 1))))"
  by pat_completeness auto
termination
proof (relation "measure length")
  show "wf (measure length)" by simp
next
  fix bytes :: "byte list" and x :: "tagAndLength \<times> byte list" and t rest xa
  assume "parseTagAndLength bytes = Inr x" "(t, rest) = x"
  then have "length rest < length bytes" using parseTagAndLength_length[of bytes t rest] by simp
  then show "(drop (tal_length t) rest, bytes) \<in> measure length" by simp
qed

declare parseSequenceOf_count.simps [simp del]

text \<open>The second loop parses that many elements, each with the empty \<^verbatim>\<open>fieldParameters\<close>.\<close>

fun parseSequenceOf_elems :: "nat \<Rightarrow> byte list \<Rightarrow> error + byte list list" where
  "parseSequenceOf_elems 0 bytes = Inr []"
| "parseSequenceOf_elems (Suc n) bytes =
    (case parseField ut_bytes None parseBytes noParams bytes of
       Inl err \<Rightarrow> Inl err
     | Inr (v, rest) \<Rightarrow>
         (case parseSequenceOf_elems n rest of
            Inl err \<Rightarrow> Inl err
          | Inr vs \<Rightarrow> Inr ((case v of None \<Rightarrow> [] | Some elem \<Rightarrow> elem) # vs)))"

definition parseSequenceOf :: "nat \<Rightarrow> byte list \<Rightarrow> error + byte list list option" where
  "parseSequenceOf universalTag bytes =
    (case parseSequenceOf_count bytes of
       Inl err \<Rightarrow> Inl err
     | Inr numElements \<Rightarrow>
         (case parseSequenceOf_elems numElements bytes of
            Inl err \<Rightarrow> Inl err
          | Inr vs \<Rightarrow> Inr (Some vs)))"

subsection \<open>The structs\<close>

text \<open>
  \<^verbatim>\<open>parseFieldParameters\<close> of the struct tags of \<^verbatim>\<open>Err\<close> and \<^verbatim>\<open>Pdu\<close>, which all have the form
  \<^verbatim>\<open>tag:n,explicit\<close>, with \<^verbatim>\<open>optional\<close> and \<^verbatim>\<open>utf8\<close> (string type \<^verbatim>\<open>TagUTF8String\<close>) or without.
\<close>

definition fieldTag :: "nat \<Rightarrow> bool \<Rightarrow> bool \<Rightarrow> fieldParameters" where
  "fieldTag n opt utf8 =
     \<lparr>optional = opt, explicit = True, tag = Some n,
      stringType = (if utf8 then TagUTF8String else 0)\<rparr>"

definition zeroErr :: Err where
  "zeroErr = \<lparr>ErrorCode = 0, HttpStatusCode = 0, WsaLastError = 0, TlsAlertCode = 0\<rparr>"

definition zeroPdu :: Pdu where
  "zeroPdu = \<lparr>Version = 0, Error = zeroErr, Destination = [], ProxyAuth = [], ServerAuth = [],
              PreconnectionBlob = [], X224ConnectionPdu = None, ServerCertChain = None,
              ServerAddr = []\<rparr>"

definition bindE :: "error + 'a \<Rightarrow> ('a \<Rightarrow> error + 'b) \<Rightarrow> error + 'b" where
  "bindE m f = (case m of Inl err \<Rightarrow> Inl err | Inr x \<Rightarrow> f x)"

text \<open>
  The struct case of \<^verbatim>\<open>parseField\<close>: the fields in order, each from where the one before
  stopped inside \<^verbatim>\<open>innerBytes\<close>; bytes left over at the end of the sequence are allowed.
\<close>

definition parseErr :: "nat \<Rightarrow> byte list \<Rightarrow> error + Err" where
  "parseErr universalTag innerBytes =
    bindE (parseField ut_int 0 parseInt (fieldTag 0 False False) innerBytes) (\<lambda>(errorCode, b1).
    bindE (parseField ut_int 0 parseInt (fieldTag 1 True False) b1) (\<lambda>(httpStatusCode, b2).
    bindE (parseField ut_int 0 parseInt (fieldTag 2 True False) b2) (\<lambda>(wsaLastError, b3).
    bindE (parseField ut_uint8 0 parseUint8 (fieldTag 3 True False) b3) (\<lambda>(tlsAlertCode, b4).
      Inr \<lparr>ErrorCode = errorCode, HttpStatusCode = httpStatusCode,
           WsaLastError = wsaLastError, TlsAlertCode = tlsAlertCode\<rparr>))))"

definition parsePdu :: "(nat \<Rightarrow> byte list \<Rightarrow> error + gostring) \<Rightarrow> nat \<Rightarrow> byte list \<Rightarrow> error + Pdu" where
  "parsePdu legacy universalTag innerBytes =
    bindE (parseField ut_int 0 parseInt (fieldTag 0 False False) innerBytes) (\<lambda>(version, b1).
    bindE (parseField ut_struct zeroErr parseErr (fieldTag 1 True False) b1) (\<lambda>(err, b2).
    bindE (parseField ut_string [] (parseString legacy) (fieldTag 2 True False) b2) (\<lambda>(destination, b3).
    bindE (parseField ut_string [] (parseString legacy) (fieldTag 3 True False) b3) (\<lambda>(proxyAuth, b4).
    bindE (parseField ut_string [] (parseString legacy) (fieldTag 4 True False) b4) (\<lambda>(serverAuth, b5).
    bindE (parseField ut_string [] (parseString legacy) (fieldTag 5 True False) b5) (\<lambda>(preconnectionBlob, b6).
    bindE (parseField ut_bytes None parseBytes (fieldTag 6 True False) b6) (\<lambda>(x224ConnectionPdu, b7).
    bindE (parseField ut_slice None parseSequenceOf (fieldTag 7 True False) b7) (\<lambda>(serverCertChain, b8).
    bindE (parseField ut_string [] (parseString legacy) (fieldTag 9 True True) b8) (\<lambda>(serverAddr, b9).
      Inr \<lparr>Version = version, Error = err, Destination = destination, ProxyAuth = proxyAuth,
           ServerAuth = serverAuth, PreconnectionBlob = preconnectionBlob,
           X224ConnectionPdu = x224ConnectionPdu, ServerCertChain = serverCertChain,
           ServerAddr = serverAddr\<rparr>)))))))))"

text \<open>
  \<^verbatim>\<open>asn1.Unmarshal(b, pdu)\<close> with \<^verbatim>\<open>pdu := &Pdu{}\<close>: one \<^verbatim>\<open>parseField\<close> with the empty parameters;
  the result is the structure and \<^verbatim>\<open>rest\<close>.
\<close>

definition asn1_Unmarshal :: "(nat \<Rightarrow> byte list \<Rightarrow> error + gostring) \<Rightarrow> byte list \<Rightarrow> error + Pdu \<times> byte list" where
  "asn1_Unmarshal legacy b = parseField ut_struct zeroPdu (parsePdu legacy) noParams b"

text \<open>\<^verbatim>\<open>rdcleanpath.Unmarshal(src)\<close>\<close>

definition Unmarshal :: "(nat \<Rightarrow> byte list \<Rightarrow> error + gostring) \<Rightarrow> byte list \<Rightarrow> error + Pdu" where
  "Unmarshal legacy src =
    (case asn1_Unmarshal legacy src of
       Inl err \<Rightarrow> Inl err
     | Inr (pdu, rest) \<Rightarrow>
         if length rest > 0 then Inl (ErrTrailingData (length rest))
         else Inr pdu)"

subsection \<open>Marshalling\<close>

text \<open>\<^verbatim>\<open>lengthLength\<close> and \<^verbatim>\<open>appendLength\<close>\<close>

function lengthLength :: "nat \<Rightarrow> nat" where
  "lengthLength i = (if i > 255 then lengthLength (drop_bit 8 i) + 1 else 1)"
  by pat_completeness auto
termination
  by (relation "measure id") (auto simp: drop_bit_eq_div)

declare lengthLength.simps [simp del]

fun appendLength_loop :: "nat \<Rightarrow> nat \<Rightarrow> byte list" where
  "appendLength_loop 0 i = []"
| "appendLength_loop (Suc n) i = of_nat (drop_bit (n * 8) i) # appendLength_loop n i"

definition appendLength :: "nat \<Rightarrow> byte list" where
  "appendLength i = appendLength_loop (lengthLength i) i"

text \<open>\<^verbatim>\<open>base128IntLength\<close> and \<^verbatim>\<open>appendBase128Int\<close>\<close>

function base128IntLength_loop :: "nat \<Rightarrow> nat" where
  "base128IntLength_loop i = (if i > 0 then base128IntLength_loop (drop_bit 7 i) + 1 else 0)"
  by pat_completeness auto
termination
  by (relation "measure id") (auto simp: drop_bit_eq_div)

declare base128IntLength_loop.simps [simp del]

definition base128IntLength :: "nat \<Rightarrow> nat" where
  "base128IntLength n = (if n = 0 then 1 else base128IntLength_loop n)"

fun appendBase128Int_loop :: "nat \<Rightarrow> nat \<Rightarrow> byte list" where
  "appendBase128Int_loop 0 n = []"
| "appendBase128Int_loop (Suc i) n =
    (let o7 = (of_nat (drop_bit (i * 7) n) :: byte) AND 0x7F
     in (if i \<noteq> 0 then o7 OR 0x80 else o7) # appendBase128Int_loop i n)"

definition appendBase128Int :: "nat \<Rightarrow> byte list" where
  "appendBase128Int n = appendBase128Int_loop (base128IntLength n) n"

definition appendTagAndLength :: "tagAndLength \<Rightarrow> byte list" where
  "appendTagAndLength t =
    (let b = push_bit 6 (of_nat (tal_class t) :: byte);
         b = (if tal_isCompound t then b OR 0x20 else b)
     in
       (if tal_tag t \<ge> 31 then (b OR 0x1F) # appendBase128Int (tal_tag t)
        else [b OR of_nat (tal_tag t)]) @
       (if tal_length t \<ge> 128 then
          (0x80 OR of_nat (lengthLength (tal_length t))) # appendLength (tal_length t)
        else [of_nat (tal_length t)]))"

text \<open>\<^verbatim>\<open>int64Encoder\<close>: \<^verbatim>\<open>Len\<close> with its two loops, and \<^verbatim>\<open>Encode\<close>.\<close>

function int64Encoder_Len_pos :: "nat \<Rightarrow> int \<Rightarrow> nat \<times> int" where
  "int64Encoder_Len_pos n i = (if i > 127 then int64Encoder_Len_pos (n + 1) (drop_bit 8 i) else (n, i))"
  by pat_completeness auto
termination
  by (relation "measure (\<lambda>(n, i). nat i)") (auto simp: drop_bit_eq_div)

function int64Encoder_Len_neg :: "nat \<Rightarrow> int \<Rightarrow> nat" where
  "int64Encoder_Len_neg n i = (if i < -128 then int64Encoder_Len_neg (n + 1) (drop_bit 8 i) else n)"
  by pat_completeness auto
termination
  by (relation "measure (\<lambda>(n, i). nat (- i))") (auto simp: drop_bit_eq_div)

declare int64Encoder_Len_pos.simps [simp del]
declare int64Encoder_Len_neg.simps [simp del]

definition int64Encoder_Len :: "int \<Rightarrow> nat" where
  "int64Encoder_Len i = (case int64Encoder_Len_pos 1 i of (n, i') \<Rightarrow> int64Encoder_Len_neg n i')"

definition int64Encoder_Encode :: "int \<Rightarrow> byte list" where
  "int64Encoder_Encode i =
    (let n = int64Encoder_Len i
     in map (\<lambda>j. (of_int (drop_bit ((n - 1 - j) * 8) i) :: byte)) [0..<n])"

text \<open>
  The scan of \<^verbatim>\<open>makeField\<close> over a string without an explicit string type: a PrintableString
  when every rune is ASCII and printable (asterisk and ampersand rejected), otherwise a
  UTF8String, or an error when the string is not valid UTF-8. The first rune that is not ASCII
  ends the scan, and every rune before it is a single byte, so the scan finds a rune to object
  to exactly when some byte is not ASCII or not printable.
\<close>

definition stringTag :: "gostring \<Rightarrow> error + nat" where
  "stringTag s =
    (if list_all (\<lambda>b. b < 0x80 \<and> isPrintable b False False) s then Inr TagPrintableString
     else if \<not> utf8_Valid s then Inl (ErrAsn1 ''asn1: string not valid UTF-8'')
     else Inr TagUTF8String)"

text \<open>
  \<^verbatim>\<open>makeField(v, params)\<close>. \<open>ut\<close> is \<^verbatim>\<open>getUniversalType(v.Type())\<close>, \<open>is_zero\<close> says whether \<open>v\<close>
  is deeply equal to the zero value of its type, \<open>strTag\<close> is the outcome of the scan above
  (read for strings only) and \<open>body\<close> the outcome of \<^verbatim>\<open>makeBody(v, params)\<close>. An omitted field is
  the empty byte sequence.
\<close>

definition makeField ::
  "universalType \<Rightarrow> bool \<Rightarrow> error + nat \<Rightarrow> error + byte list \<Rightarrow> fieldParameters \<Rightarrow> error + byte list" where
  "makeField ut is_zero strTag body params =
    (if optional params \<and> is_zero then Inr []
     else if \<not> ok ut \<or> matchAny ut then Inl (StructuralError ''unknown Go type'')
     else if stringType params \<noteq> 0 \<and> tagNumber ut \<noteq> TagPrintableString then
       Inl (StructuralError ''explicit string type given to non-string member'')
     else
       (case (if tagNumber ut = TagPrintableString then
                (if stringType params = 0 then strTag else Inr (stringType params))
              else Inr (tagNumber ut)) of
          Inl err \<Rightarrow> Inl err
        | Inr tg \<Rightarrow>
            (case body of
               Inl err \<Rightarrow> Inl err
             | Inr bodyBytes \<Rightarrow>
                 let bodyLen = length bodyBytes in
                   (case tag params of
                      Some ptag \<Rightarrow>
                        if explicit params then
                          let inner = appendTagAndLength
                                \<lparr>tal_class = ClassUniversal, tal_tag = tg, tal_length = bodyLen,
                                 tal_isCompound = isCompound ut\<rparr>
                          in Inr (appendTagAndLength
                                    \<lparr>tal_class = ClassContextSpecific, tal_tag = ptag,
                                     tal_length = bodyLen + length inner, tal_isCompound = True\<rparr>
                                  @ inner @ bodyBytes)
                        else
                          Inr (appendTagAndLength
                                 \<lparr>tal_class = ClassContextSpecific, tal_tag = ptag,
                                  tal_length = bodyLen, tal_isCompound = isCompound ut\<rparr>
                               @ bodyBytes)
                    | None \<Rightarrow>
                        Inr (appendTagAndLength
                               \<lparr>tal_class = ClassUniversal, tal_tag = tg, tal_length = bodyLen,
                                tal_isCompound = isCompound ut\<rparr>
                             @ bodyBytes)))))"

text \<open>\<^verbatim>\<open>makeBody\<close>, kind by kind.\<close>

definition makeIA5String :: "gostring \<Rightarrow> error + byte list" where
  "makeIA5String s =
    (if list_all (\<lambda>b. b \<le> 127) s then Inr s
     else Inl (StructuralError ''IA5String contains invalid character''))"

definition makePrintableString :: "gostring \<Rightarrow> error + byte list" where
  "makePrintableString s =
    (if list_all (\<lambda>b. isPrintable b True False) s then Inr s
     else Inl (StructuralError ''PrintableString contains invalid character''))"

definition makeNumericString :: "gostring \<Rightarrow> error + byte list" where
  "makeNumericString s =
    (if list_all isNumeric s then Inr s
     else Inl (StructuralError ''NumericString contains invalid character''))"

definition makeBody_string :: "gostring \<Rightarrow> fieldParameters \<Rightarrow> error + byte list" where
  "makeBody_string s params =
    (if stringType params = TagIA5String then makeIA5String s
     else if stringType params = TagPrintableString then makePrintableString s
     else if stringType params = TagNumericString then makeNumericString s
     else Inr s)"

definition makeBody_int :: "int \<Rightarrow> error + byte list" where
  "makeBody_int i = Inr (int64Encoder_Encode i)"

definition makeBody_bytes :: "byte list option \<Rightarrow> error + byte list" where
  "makeBody_bytes v = Inr (case v of None \<Rightarrow> [] | Some bs \<Rightarrow> bs)"

text \<open>A field of a string, integer or byte-slice kind.\<close>

definition makeField_string :: "gostring \<Rightarrow> fieldParameters \<Rightarrow> error + byte list" where
  "makeField_string s params =
     makeField ut_string (s = []) (stringTag s) (makeBody_string s params) params"

definition makeField_int :: "int \<Rightarrow> fieldParameters \<Rightarrow> error + byte list" where
  "makeField_int i params = makeField ut_int (i = 0) (Inr 0) (makeBody_int i) params"

definition makeField_bytes :: "byte list option \<Rightarrow> fieldParameters \<Rightarrow> error + byte list" where
  "makeField_bytes v params = makeField ut_bytes (v = None) (Inr 0) (makeBody_bytes v) params"

text \<open>\<^verbatim>\<open>uint8\<close>: omitted when optional and zero, otherwise "unknown Go type".\<close>

definition makeField_uint8 :: "byte \<Rightarrow> fieldParameters \<Rightarrow> error + byte list" where
  "makeField_uint8 v params =
     makeField ut_uint8 (v = 0) (Inr 0) (Inl (StructuralError ''unknown Go type'')) params"

text \<open>
  The slice case of \<^verbatim>\<open>makeBody\<close> for \<^verbatim>\<open>[][]byte\<close>: every element is a field with the empty
  parameters, in order; the first error wins.
\<close>

fun makeBody_elems :: "byte list list \<Rightarrow> error + byte list" where
  "makeBody_elems [] = Inr []"
| "makeBody_elems (e # es) =
    bindE (makeField_bytes (Some e) noParams) (\<lambda>m.
    bindE (makeBody_elems es) (\<lambda>ms. Inr (m @ ms)))"

definition makeBody_slice :: "byte list list option \<Rightarrow> error + byte list" where
  "makeBody_slice v = (case v of None \<Rightarrow> Inr [] | Some es \<Rightarrow> makeBody_elems es)"

definition makeField_slice :: "byte list list option \<Rightarrow> fieldParameters \<Rightarrow> error + byte list" where
  "makeField_slice v params = makeField ut_slice (v = None) (Inr 0) (makeBody_slice v) params"

text \<open>The struct case of \<^verbatim>\<open>makeBody\<close>: the fields in order, the first error wins.\<close>

definition makeBody_Err :: "Err \<Rightarrow> error + byte list" where
  "makeBody_Err e =
    bindE (makeField_int (ErrorCode e) (fieldTag 0 False False)) (\<lambda>m0.
    bindE (makeField_int (HttpStatusCode e) (fieldTag 1 True False)) (\<lambda>m1.
    bindE (makeField_int (WsaLastError e) (fieldTag 2 True False)) (\<lambda>m2.
    bindE (makeField_uint8 (TlsAlertCode e) (fieldTag 3 True False)) (\<lambda>m3.
      Inr (m0 @ m1 @ m2 @ m3)))))"

definition makeField_Err :: "Err \<Rightarrow> fieldParameters \<Rightarrow> error + byte list" where
  "makeField_Err e params = makeField ut_struct (e = zeroErr) (Inr 0) (makeBody_Err e) params"

definition makeBody_Pdu :: "Pdu \<Rightarrow> error + byte list" where
  "makeBody_Pdu pdu =
    bindE (makeField_int (Version pdu) (fieldTag 0 False False)) (\<lambda>m0.
    bindE (makeField_Err (Error pdu) (fieldTag 1 True False)) (\<lambda>m1.
    bindE (makeField_string (Destination pdu) (fieldTag 2 True False)) (\<lambda>m2.
    bindE (makeField_string (ProxyAuth pdu) (fieldTag 3 True False)) (\<lambda>m3.
    bindE (makeField_string (ServerAuth pdu) (fieldTag 4 True False)) (\<lambda>m4.
    bindE (makeField_string (PreconnectionBlob pdu) (fieldTag 5 True False)) (\<lambda>m5.
    bindE (makeField_bytes (X224ConnectionPdu pdu) (fieldTag 6 True False)) (\<lambda>m6.
    bindE (makeField_slice (ServerCertChain pdu) (fieldTag 7 True False)) (\<lambda>m7.
    bindE (makeField_string (ServerAddr pdu) (fieldTag 9 True True)) (\<lambda>m9.
      Inr (m0 @ m1 @ m2 @ m3 @ m4 @ m5 @ m6 @ m7 @ m9))))))))))"

text \<open>\<^verbatim>\<open>asn1.Marshal(*pdu)\<close>, which is all that \<^verbatim>\<open>Pdu.Marshal\<close> does.\<close>

definition Marshal :: "Pdu \<Rightarrow> error + byte list" where
  "Marshal pdu = makeField ut_struct (pdu = zeroPdu) (Inr 0) (makeBody_Pdu pdu) noParams"

section \<open>Properties of the frame reader\<close>

subsection \<open>\<^verbatim>\<open>io.ReadFull\<close> on a chunked stream\<close>

lemma ReadFull_loop_enough:
  "length acc \<le> n \<Longrightarrow> n - length acc \<le> length (pending r) \<Longrightarrow>
   fst (ReadFull_loop n acc r) = (acc @ take (n - length acc) (pending r), None) \<and>
   pending (snd (ReadFull_loop n acc r)) = drop (n - length acc) (pending r) \<and>
   fin (snd (ReadFull_loop n acc r)) = fin r"
proof (induction n acc r rule: ReadFull_loop.induct)
  case (1 n acc r)
  show ?case
  proof (cases "length acc < n")
    case False
    with 1(2) show ?thesis by (simp add: ReadFull_loop.simps[of n acc r])
  next
    case True
    show ?thesis
    proof (cases "chunks r")
      case Nil
      with True 1(3) show ?thesis by (simp add: pending_def)
    next
      case (Cons c cs)
      define k where "k = min (n - length acc) (length c)"
      define r' where "r' = r\<lparr>chunks := (if k < length c then drop k c # cs else cs)\<rparr>"
      have rd: "Read (n - length acc) r = ((take k c, None), r')"
        by (simp add: Read_def Cons k_def r'_def Let_def)
      have p: "pending r = c @ concat cs" by (simp add: pending_def Cons)
      have p': "pending r' = drop k c @ concat cs"
        by (auto simp: pending_def r'_def k_def)
      have f': "fin r' = fin r" by (simp add: r'_def)
      have len: "length (acc @ take k c) \<le> n" using True by (simp add: k_def)
      have enough: "n - length (acc @ take k c) \<le> length (pending r')"
        using 1(3) True by (auto simp: p p' k_def min_def)
      note IH = 1(1)[OF True rd[symmetric] refl refl len enough]
      have step: "ReadFull_loop n acc r = ReadFull_loop n (acc @ take k c) r'"
        using True rd by (simp add: ReadFull_loop.simps[of n acc r])
      have tk: "take k c @ take (n - length (acc @ take k c)) (pending r') = take (n - length acc) (pending r)"
        using True by (auto simp: p p' k_def min_def)
      have dr: "drop (n - length (acc @ take k c)) (pending r') = drop (n - length acc) (pending r)"
        using True by (auto simp: p p' k_def min_def)
      show ?thesis using IH tk dr f' by (simp add: step)
    qed
  qed
qed

lemma ReadFull_loop_short:
  "length (pending r) < n - length acc \<Longrightarrow>
   fst (ReadFull_loop n acc r) = (acc @ pending r, Some (fin r)) \<and>
   pending (snd (ReadFull_loop n acc r)) = [] \<and>
   fin (snd (ReadFull_loop n acc r)) = fin r"
proof (induction n acc r rule: ReadFull_loop.induct)
  case (1 n acc r)
  from 1(2) have True: "length acc < n" by simp
  show ?case
  proof (cases "chunks r")
    case Nil
    then show ?thesis using True
      by (simp add: ReadFull_loop.simps[of n acc r] Read_def pending_def)
  next
    case (Cons c cs)
    define k where "k = min (n - length acc) (length c)"
    define r' where "r' = r\<lparr>chunks := (if k < length c then drop k c # cs else cs)\<rparr>"
    have rd: "Read (n - length acc) r = ((take k c, None), r')"
      by (simp add: Read_def Cons k_def r'_def Let_def)
    have p: "pending r = c @ concat cs" by (simp add: pending_def Cons)
    have kc: "k = length c" using 1(2) by (simp add: k_def p)
    have p': "pending r' = concat cs"
      by (simp add: pending_def r'_def kc)
    have f': "fin r' = fin r" by (simp add: r'_def)
    have short: "length (pending r') < n - length (acc @ take k c)"
      using 1(2) by (simp add: p p' kc)
    note IH = 1(1)[OF True rd[symmetric] refl refl short]
    have step: "ReadFull_loop n acc r = ReadFull_loop n (acc @ take k c) r'"
      using True rd by (simp add: ReadFull_loop.simps[of n acc r])
    show ?thesis using IH f' by (simp add: step p p' kc)
  qed
qed

lemma nat_or_push8: "y < 256 \<Longrightarrow> push_bit 8 (x::nat) OR y = x * 256 + y"
proof -
  assume y: "y < 256"
  have "push_bit 8 x + y = push_bit 8 x OR y"
  proof (rule disjunctive_add)
    fix n
    show "\<not> bit (push_bit 8 x) n \<or> \<not> bit y n"
    proof (cases "n < 8")
      case True then show ?thesis by (simp add: bit_push_bit_iff)
    next
      case False
      then have "2 ^ 8 \<le> (2::nat) ^ n" by (intro power_increasing) auto
      with y have "y < 2 ^ n" by simp
      then have "\<not> bit y n" by (simp add: bit_iff_odd)
      then show ?thesis by simp
    qed
  qed
  then show ?thesis by (simp add: push_bit_eq_mult)
qed

lemma be16: "unat ((push_bit 8 (ucast (x::8 word)) :: 16 word) OR ucast (y::8 word)) = unat x * 256 + unat y"
proof -
  have x: "unat x < 256" using unsigned_less[of x, where ?'a = nat] by simp
  have y: "unat y < 256" using unsigned_less[of y, where ?'a = nat] by simp
  have ux: "unat (ucast x :: 16 word) = unat x"
    by (simp add: unsigned_ucast_eq take_bit_nat_eq_self_iff) (use x in simp)
  have uy: "unat (ucast y :: 16 word) = unat y"
    by (simp add: unsigned_ucast_eq take_bit_nat_eq_self_iff) (use y in simp)
  have lt: "push_bit 8 (unat x) < (2::nat) ^ 16" using x by (simp add: push_bit_eq_mult)
  have "unat (push_bit 8 (ucast x :: 16 word)) = take_bit 16 (push_bit 8 (unat (ucast x :: 16 word)))"
    using unsigned_push_bit_eq[of 8 "ucast x :: 16 word", where ?'a = nat] by simp
  also have "\<dots> = push_bit 8 (unat x)"
    using lt by (simp only: ux take_bit_nat_eq_self)
  finally have px: "unat (push_bit 8 (ucast x :: 16 word)) = push_bit 8 (unat x)" .
  have "unat ((push_bit 8 (ucast x) :: 16 word) OR ucast y) = push_bit 8 (unat x) OR unat y"
    by (simp only: unsigned_or_eq px uy)
  also have "\<dots> = unat x * 256 + unat y"
    using y by (rule nat_or_push8)
  finally show ?thesis .
qed

lemma ReadFull_enough:
  assumes "n \<le> length (pending r)"
  shows "fst (ReadFull n r) = (take n (pending r), None)"
    and "pending (snd (ReadFull n r)) = drop n (pending r)"
    and "fin (snd (ReadFull n r)) = fin r"
  using ReadFull_loop_enough[of "[]" n r] assms
  by (auto simp: ReadFull_def split: prod.splits)

lemma ReadFull_short:
  assumes "length (pending r) < n"
  shows "fst (ReadFull n r) =
           (pending r, Some (if pending r \<noteq> [] \<and> fin r = EOF then ErrUnexpectedEOF else fin r))"
  using ReadFull_loop_short[of r n "[]"] assms
  by (auto simp: ReadFull_def split: prod.splits)

lemma readFull_or_fail_enough:
  assumes "n \<le> length (pending r)"
  shows "\<exists>r'. readFull_or_fail n r = (Inr (take n (pending r)), r') \<and>
              pending r' = drop n (pending r) \<and> fin r' = fin r"
  using ReadFull_enough[OF assms]
  by (cases "ReadFull n r") (auto simp: readFull_or_fail_def)

lemma readFull_or_fail_short:
  assumes "length (pending r) < n"
  shows "fst (readFull_or_fail n r) = Inl (eof_err (fin r))"
  using ReadFull_short[OF assms]
  by (cases "ReadFull n r") (auto simp: readFull_or_fail_def eof_err_def)

lemma io_bind_read_enough:
  assumes "n \<le> length (pending r)"
  obtains r' where "io_bind (readFull_or_fail n) f r = f (take n (pending r)) r'"
    and "pending r' = drop n (pending r)" and "fin r' = fin r"
  using readFull_or_fail_enough[OF assms] by (auto simp: io_bind_def)

lemma io_bind_read_short:
  assumes "length (pending r) < n"
  shows "fst (io_bind (readFull_or_fail n) f r) = Inl (eof_err (fin r))"
  using readFull_or_fail_short[OF assms]
  by (cases "readFull_or_fail n r") (auto simp: io_bind_def)

lemma io_bind_return [simp]: "io_bind (io_return x) f = f x"
  by (rule ext) (simp add: io_bind_def io_return_def)

lemma io_bind_assoc: "io_bind (io_bind m f) g = io_bind m (\<lambda>x. io_bind (f x) g)"
  by (rule ext) (auto simp: io_bind_def split: prod.splits sum.splits)

subsection \<open>Header arithmetic\<close>

lemma ucast_8_16: "unat (ucast (x::byte) :: 16 word) = unat x"
proof -
  have "unat x < 2 ^ 16" using unsigned_less[of x, where ?'a = nat] by simp
  then show ?thesis by (simp add: unsigned_ucast_eq take_bit_nat_eq_self_iff)
qed

lemma FindPduSize_small:
  assumes "b0 AND 3 = 0" "b1 AND 0x80 = 0"
  shows "FindPduSize [b0, b1] = Inr \<lparr>Action = ActionFastPath, Length = int (unat b1)\<rparr>"
proof -
  have u: "uint (ucast b1 :: 16 word) = int (unat b1)"
    using ucast_8_16[of b1] by (simp only: uint_nat)
  have "FindPduSize [b0, b1] = (let len = (ucast b1 :: 16 word) in
                    if len = 0 then Inr \<lparr>Action = ActionFastPath, Length = 0\<rparr>
                    else Inr \<lparr>Action = ActionFastPath, Length = uint len\<rparr>)"
    using assms by (simp add: FindPduSize_def MinHeaderSize_def FastPathMinSize_def Let_def)
  also have "\<dots> = Inr \<lparr>Action = ActionFastPath, Length = uint (ucast b1 :: 16 word)\<rparr>"
    by (simp add: Let_def)
  finally show ?thesis by (simp only: u)
qed

lemma FindPduSize_large:
  assumes "b0 AND 3 = 0" "b1 AND 0x80 \<noteq> 0"
  shows "FindPduSize [b0, b1, b2] =
     Inr \<lparr>Action = ActionFastPath, Length = int (unat (b1 AND 0x7F) * 256 + unat b2)\<rparr>"
proof -
  have u: "uint ((push_bit 8 (ucast (b1 AND 0x7F) :: 16 word)) OR (ucast b2 :: 16 word))
            = int (unat (b1 AND 0x7F) * 256 + unat b2)"
    using be16[of "b1 AND 0x7F" b2] by (simp only: uint_nat)
  show ?thesis
    using assms u
    by (auto simp: FindPduSize_def MinHeaderSize_def FastPathMinSize_def FastPathLargeSize_def Let_def)
qed

lemma BigEndian_Uint16_unat: "unat (BigEndian_Uint16 [x, y]) = unat x * 256 + unat y"
  using be16[of x y] by (simp add: BigEndian_Uint16_def or.commute)

lemma FindPduSize_tpkt:
  "FindPduSize [3, b1, b2, b3] =
     (if unat b2 * 256 + unat b3 < 4 then Inl (ErrInvalidLength (unat b2 * 256 + unat b3))
      else Inr \<lparr>Action = ActionX224, Length = int (unat b2 * 256 + unat b3)\<rparr>)"
proof -
  have u: "uint (BigEndian_Uint16 [b2, b3]) = int (unat b2 * 256 + unat b3)"
    using BigEndian_Uint16_unat[of b2 b3] by (simp only: uint_nat)
  have a: "(3::byte) AND 3 = 3" by simp
  show ?thesis
    unfolding FindPduSize_def MinHeaderSize_def TPKTHeaderSize_def Let_def
    using a by (simp add: BigEndian_Uint16_unat u)
qed

lemma FindPduSize_tpkt_version:
  "b0 AND 3 = 3 \<Longrightarrow> b0 \<noteq> 3 \<Longrightarrow> FindPduSize [b0, b1, b2, b3] = Inl (ErrTPKTVersion b0)"
  by (simp add: FindPduSize_def MinHeaderSize_def TPKTHeaderSize_def Let_def)

subsection \<open>\<^verbatim>\<open>ReadFrame\<close> against the extent of the first frame\<close>

lemma readFull_or_fail_short_ex:
  assumes "length (pending r) < n"
  shows "\<exists>r'. readFull_or_fail n r = (Inl (eof_err (fin r)), r')"
  using readFull_or_fail_short[OF assms] by (cases "readFull_or_fail n r") simp

lemmas io_defs = io_bind_def io_return_def io_fail_def
lemmas size_defs = MinHeaderSize_def FastPathMinSize_def FastPathLargeSize_def TPKTHeaderSize_def

lemma ReadFrame_frame_result: "frame_result r (ReadFrame r)"
proof (cases "pending r")
  case Nil
  then obtain r' where "readFull_or_fail 1 r = (Inl (eof_err (fin r)), r')"
    using readFull_or_fail_short_ex[of r 1] by auto
  with Nil show ?thesis
    by (simp add: frame_result_def frame_extent_def ReadFrame_def io_defs size_defs)
next
  case (Cons b0 s1)
  then obtain r1 where rd1: "readFull_or_fail 1 r = (Inr [b0], r1)"
    and p1: "pending r1 = s1" and f1: "fin r1 = fin r"
    using readFull_or_fail_enough[of 1 r] by auto
  consider (fp) "b0 AND 3 = 0" | (tpkt) "b0 AND 3 = 3" | (other) "b0 AND 3 \<noteq> 0" "b0 AND 3 \<noteq> 3"
    by blast
  then show ?thesis
  proof cases
    case other
    with Cons rd1 show ?thesis
      by (simp add: frame_result_def frame_extent_def ReadFrame_def io_defs size_defs)
  next
    case fp
    show ?thesis
    proof (cases s1)
      case Nil
      then obtain r' where "readFull_or_fail 1 r1 = (Inl (eof_err (fin r)), r')"
        using readFull_or_fail_short_ex[of r1 1] p1 f1 by auto
      with Cons Nil rd1 fp show ?thesis
        by (simp add: frame_result_def frame_extent_def ReadFrame_def io_defs size_defs)
    next
      case s1: (Cons b1 s2)
      then obtain r2 where rd2: "readFull_or_fail 1 r1 = (Inr [b1], r2)"
        and p2: "pending r2 = s2" and f2: "fin r2 = fin r"
        using readFull_or_fail_enough[of 1 r1] p1 f1 by auto
      show ?thesis
      proof (cases "b1 AND 0x80 = 0")
        case small: True
        note fps = FindPduSize_small[OF fp small]
        show ?thesis
        proof (cases "unat b1 \<le> length s2")
          case True
          then obtain r3 where rd3: "readFull_or_fail (unat b1) r2 = (Inr (take (unat b1) s2), r3)"
            and p3: "pending r3 = drop (unat b1) s2" and f3: "fin r3 = fin r"
            using readFull_or_fail_enough[of "unat b1" r2] p2 f2 by auto
          from Cons s1 rd1 rd2 rd3 fp small fps True p3 f3 show ?thesis
            by (simp add: frame_result_def frame_extent_def ReadFrame_def io_defs size_defs)
        next
          case False
          then obtain r' where "readFull_or_fail (unat b1) r2 = (Inl (eof_err (fin r)), r')"
            using readFull_or_fail_short_ex[of r2 "unat b1"] p2 f2 by auto
          with Cons s1 rd1 rd2 fp small fps False show ?thesis
            by (simp add: frame_result_def frame_extent_def ReadFrame_def io_defs size_defs)
        qed
      next
        case large: False
        show ?thesis
        proof (cases s2)
          case Nil
          then obtain r' where "readFull_or_fail 1 r2 = (Inl (eof_err (fin r)), r')"
            using readFull_or_fail_short_ex[of r2 1] p2 f2 by auto
          with Cons s1 Nil rd1 rd2 fp large show ?thesis
            by (simp add: frame_result_def frame_extent_def ReadFrame_def io_defs size_defs)
        next
          case s2: (Cons b2 s3)
          then obtain r3 where rd3: "readFull_or_fail 1 r2 = (Inr [b2], r3)"
            and p3: "pending r3 = s3" and f3: "fin r3 = fin r"
            using readFull_or_fail_enough[of 1 r2] p2 f2 by auto
          define L where "L = unat (b1 AND 0x7F) * 256 + unat b2"
          note fps = FindPduSize_large[OF fp large, of b2, folded L_def]
          show ?thesis
          proof (cases "L \<le> length s3")
            case True
            then obtain r4 where rd4: "readFull_or_fail L r3 = (Inr (take L s3), r4)"
              and p4: "pending r4 = drop L s3" and f4: "fin r4 = fin r"
              using readFull_or_fail_enough[of L r3] p3 f3 by auto
            have tk: "take (3 + L) (b0 # b1 # b2 # s3) = b0 # b1 # b2 # take L s3"
              "drop (3 + L) (b0 # b1 # b2 # s3) = drop L s3"
              by (simp_all add: numeral_3_eq_3)
            from Cons s1 s2 rd1 rd2 rd3 rd4 fp large fps True p4 f4 tk show ?thesis
              by (simp add: frame_result_def frame_extent_def ReadFrame_def io_defs size_defs
                    flip: L_def)
          next
            case False
            then obtain r' where "readFull_or_fail L r3 = (Inl (eof_err (fin r)), r')"
              using readFull_or_fail_short_ex[of r3 L] p3 f3 by auto
            with Cons s1 s2 rd1 rd2 rd3 fp large fps False show ?thesis
              by (simp add: frame_result_def frame_extent_def ReadFrame_def io_defs size_defs
                    flip: L_def)
          qed
        qed
      qed
    qed
  next
    case tpkt
    show ?thesis
    proof (cases "length s1 < 3")
      case True
      then obtain r' where "readFull_or_fail 3 r1 = (Inl (eof_err (fin r)), r')"
        using readFull_or_fail_short_ex[of r1 3] p1 f1 by auto
      with Cons True rd1 tpkt show ?thesis
        by (simp add: frame_result_def frame_extent_def ReadFrame_def io_defs size_defs)
    next
      case False
      then obtain b1 b2 b3 s4 where s1: "s1 = b1 # b2 # b3 # s4"
        by (cases s1; cases "tl s1"; cases "tl (tl s1)") auto
      then obtain r2 where rd2: "readFull_or_fail 3 r1 = (Inr [b1, b2, b3], r2)"
        and p2: "pending r2 = s4" and f2: "fin r2 = fin r"
        using readFull_or_fail_enough[of 3 r1] p1 f1 by auto
      show ?thesis
      proof (cases "b0 = 3")
        case ver: False
        note fps = FindPduSize_tpkt_version[OF tpkt ver, of b1 b2 b3]
        from Cons s1 rd1 rd2 tpkt ver fps show ?thesis
          by (simp add: frame_result_def frame_extent_def ReadFrame_def io_defs size_defs)
      next
        case ver: True
        define T where "T = unat b2 * 256 + unat b3"
        note fps = FindPduSize_tpkt[of b1 b2 b3, folded T_def]
        consider (bad) "T < 4" | (empty) "T = 4" | (more) "4 < T" "T - 4 \<le> length s4"
          | (trunc) "4 < T" "length s4 < T - 4"
          by linarith
        then show ?thesis
        proof cases
          case bad
          with Cons s1 rd1 rd2 tpkt ver fps show ?thesis
            by (simp add: frame_result_def frame_extent_def ReadFrame_def io_defs size_defs
                  flip: T_def)
        next
          case empty
          with Cons s1 rd1 rd2 tpkt ver fps p2 f2 show ?thesis
            by (simp add: frame_result_def frame_extent_def ReadFrame_def io_defs size_defs
                  flip: T_def)
        next
          case more
          then obtain r3 where rd3: "readFull_or_fail (T - 4) r2 = (Inr (take (T - 4) s4), r3)"
            and p3: "pending r3 = drop (T - 4) s4" and f3: "fin r3 = fin r"
            using readFull_or_fail_enough[of "T - 4" r2] p2 f2 by auto
          have n: "nat (int T - 4) = T - 4" by simp
          from more(1) have "T = Suc (Suc (Suc (Suc (T - 4))))" by simp
          then obtain k where k: "T = Suc (Suc (Suc (Suc k)))" "T - 4 = k" by simp
          have tk: "take T (b0 # b1 # b2 # b3 # s4) = b0 # b1 # b2 # b3 # take (T - 4) s4"
            "drop T (b0 # b1 # b2 # b3 # s4) = drop (T - 4) s4"
            "\<not> length (b0 # b1 # b2 # b3 # s4) < T"
            using more(2) by (simp_all add: k)
          from more Cons s1 rd1 rd2 rd3 tpkt ver fps p3 f3 n tk show ?thesis
            by (simp add: frame_result_def frame_extent_def ReadFrame_def io_defs size_defs
                  flip: T_def)
        next
          case trunc
          then obtain r' where "readFull_or_fail (T - 4) r2 = (Inl (eof_err (fin r)), r')"
            using readFull_or_fail_short_ex[of r2 "T - 4"] p2 f2 by auto
          moreover have n: "nat (int T - 4) = T - 4" by simp
          ultimately show ?thesis using trunc Cons s1 rd1 rd2 tpkt ver fps
            by (simp add: frame_result_def frame_extent_def ReadFrame_def io_defs size_defs
                  flip: T_def)
        qed
      qed
    qed
  qed
qed

lemma ReadFrame_extent_Inr:
  assumes "frame_extent (pending r) (eof_err (fin r)) = Inr (n, a)"
  shows "fst (ReadFrame r) = Inr (take n (pending r), a)"
    and "pending (snd (ReadFrame r)) = drop n (pending r)"
    and "fin (snd (ReadFrame r)) = fin r"
  using ReadFrame_frame_result[of r] assms by (simp_all add: frame_result_def)

lemma ReadFrame_extent_Inl:
  assumes "frame_extent (pending r) (eof_err (fin r)) = Inl e"
  shows "fst (ReadFrame r) = Inl e"
  using ReadFrame_frame_result[of r] assms by (simp add: frame_result_def)

lemma take2_nth: "2 \<le> length s \<Longrightarrow> take 2 s = [s ! 0, s ! 1]"
  by (cases s; cases "tl s") auto

lemma take3_nth: "3 \<le> length s \<Longrightarrow> take 3 s = [s ! 0, s ! 1, s ! 2]"
  by (cases s; cases "tl s"; cases "tl (tl s)") auto

lemma take4_nth: "4 \<le> length s \<Longrightarrow> take 4 s = [s ! 0, s ! 1, s ! 2, s ! 3]"
  by (cases s; cases "tl s"; cases "tl (tl s)"; cases "tl (tl (tl s))") auto


lemma frame_extent_le:
  "frame_extent s e = Inr (n, a) \<Longrightarrow> n \<le> length s"
  by (auto simp: frame_extent_def split: if_splits)

lemma frame_extent_prefix:
  assumes "frame_extent (s @ rest) e' = Inr (length (s @ rest), a)" and "rest \<noteq> []"
  shows "frame_extent s e = Inl e"
proof (cases "s = []")
  case True
  then show ?thesis by (simp add: frame_extent_def)
next
  case False
  have nth: "\<And>i. i < length s \<Longrightarrow> (s @ rest) ! i = s ! i" by (simp add: nth_append)
  have lt: "length s < length (s @ rest)" using assms(2) by simp
  from False have n0: "(s @ rest) ! 0 = s ! 0" by (simp add: nth_append)
  show ?thesis
  proof (cases "length s < 2")
    case True
    with assms False n0 show ?thesis
      by (auto simp: frame_extent_def split: if_splits)
  next
    case l2: False
    then have n1: "(s @ rest) ! 1 = s ! 1" by (simp add: nth_append)
    show ?thesis
    proof (cases "length s < 3")
      case True
      with assms False n0 n1 l2 lt show ?thesis
        by (auto simp: frame_extent_def split: if_splits)
    next
      case l3: False
      then have n2: "(s @ rest) ! 2 = s ! 2" by (simp add: nth_append)
      show ?thesis
      proof (cases "length s < 4")
        case True
        with assms False n0 n1 n2 l2 l3 lt show ?thesis
          by (auto simp: frame_extent_def split: if_splits)
      next
        case l4: False
        then have n3: "(s @ rest) ! 3 = s ! 3" by (simp add: nth_append)
        from assms False n0 n1 n2 n3 l2 l3 l4 lt show ?thesis
          by (auto simp: frame_extent_def split: if_splits)
      qed
    qed
  qed
qed


lemma and3_cases: "(b::byte) AND 3 = 1 \<or> b AND 3 = 2 \<Longrightarrow> b AND 3 \<noteq> 0 \<and> b AND 3 \<noteq> 3"
  by auto


section \<open>Properties of the codec\<close>

subsection \<open>Bytes after an element\<close>

lemma parseBase128Int_loop_append:
  "parseBase128Int_loop shifted ret64 bytes = Inr (n, rest) \<Longrightarrow>
   parseBase128Int_loop shifted ret64 (bytes @ extra) = Inr (n, rest @ extra)"
  by (induction shifted ret64 bytes rule: parseBase128Int_loop.induct)
     (auto simp: Let_def split: if_splits)

lemma parseLength_loop_append:
  "parseLength_loop i len bytes = Inr (n, rest) \<Longrightarrow>
   parseLength_loop i len (bytes @ extra) = Inr (n, rest @ extra)"
  by (induction i len bytes rule: parseLength_loop.induct)
     (auto simp: Let_def split: if_splits)

lemma parseLongTag_append:
  assumes "parseLongTag tag0 bytes = Inr (tg, rest)"
  shows "parseLongTag tag0 (bytes @ extra) = Inr (tg, rest @ extra)"
proof (cases "tag0 = 0x1F")
  case True
  with assms have "parseBase128Int_loop 0 0 bytes = Inr (tg, rest)" and "\<not> tg < 0x1F"
    by (auto simp: parseLongTag_def parseBase128Int_def split: if_splits sum.splits)
  with True show ?thesis
    by (simp add: parseLongTag_def parseBase128Int_def parseBase128Int_loop_append)
next
  case False
  with assms show ?thesis by (simp add: parseLongTag_def)
qed

lemma parseLength_append:
  assumes "parseLength bytes = Inr (len, rest)"
  shows "parseLength (bytes @ extra) = Inr (len, rest @ extra)"
proof -
  from assms obtain b bytes' where b: "bytes = b # bytes'"
    by (cases bytes) (auto simp: parseLength_def)
  show ?thesis
  proof (cases "b AND 0x80 = 0")
    case True
    with assms b show ?thesis by (simp add: parseLength_def)
  next
    case False
    with assms b have "parseLength_loop (unat (b AND 0x7F)) 0 bytes' = Inr (len, rest)"
      and "\<not> len < 0x80" and "unat (b AND 0x7F) \<noteq> 0"
      by (auto simp: parseLength_def Let_def split: if_splits sum.splits)
    with False b show ?thesis
      by (simp add: parseLength_def Let_def parseLength_loop_append)
  qed
qed

lemma parseTagAndLength_append:
  assumes "parseTagAndLength bytes = Inr (t, rest)"
  shows "parseTagAndLength (bytes @ extra) = Inr (t, rest @ extra)"
proof -
  from assms obtain b bytes1 tg bytes2 len where
    b: "bytes = b # bytes1" and tg: "parseLongTag (unat (b AND 0x1F)) bytes1 = Inr (tg, bytes2)"
    and len: "parseLength bytes2 = Inr (len, rest)"
    and t: "t = \<lparr>tal_class = unat (drop_bit 6 b), tal_tag = tg, tal_length = len,
                 tal_isCompound = (b AND 0x20 = 0x20)\<rparr>"
    by (auto simp: parseTagAndLength_def split: list.splits sum.splits)
  show ?thesis
    using parseLongTag_append[OF tg, of extra] parseLength_append[OF len, of extra]
    by (simp add: parseTagAndLength_def b t)
qed

lemma parseField_noParams_append:
  assumes "parseField ut zero body noParams bytes = Inr (v, rest)"
  shows "parseField ut zero body noParams (bytes @ extra) = Inr (v, rest @ extra)"
proof -
  from assms have ne: "bytes \<noteq> []"
    by (auto simp: parseField_def noParams_def)
  from assms ne obtain t r where tl: "parseTagAndLength bytes = Inr (t, r)"
    by (auto simp: parseField_def noParams_def split: sum.splits)
  note tl' = parseTagAndLength_append[OF tl, of extra]
  from assms ne tl have un: "parseField_unwrapped ut zero body noParams bytes t r = Inr (v, rest)"
    by (simp add: parseField_def noParams_def)
  then have "parseField_unwrapped ut zero body noParams (bytes @ extra) t (r @ extra) = Inr (v, rest @ extra)"
    unfolding parseField_unwrapped_def
    by (auto simp: noParams_def split: if_splits sum.splits)
  with ne tl' show ?thesis
    by (simp add: parseField_def noParams_def)
qed


section \<open>The claims\<close>

text \<open>
  C1. A stream that starts with a FastPath header (low two bits of the first byte 00) and holds
  the whole frame: \<open>ReadFrame\<close> returns the first \<open>headerSize + len\<close> bytes as one FastPath frame
  and leaves the rest of the stream unread. With the high bit of the second byte clear the header
  has 2 bytes and the declared payload length is the second byte (0 included); with it set the
  header has 3 bytes and the length is \<open>((byte2 & 0x7F) << 8) | byte3\<close>. \<open>FindPduSize\<close> on the
  header reports that payload length.
\<close>

theorem ReadFrame_FastPath_frame:
  assumes "2 \<le> length (pending r)"
    and "pending r ! 0 AND 3 = 0"
    and "headerSize = (if pending r ! 1 AND 0x80 = 0 then 2 else 3)"
    and "len = (if pending r ! 1 AND 0x80 = 0 then unat (pending r ! 1)
                else push_bit 8 (unat (pending r ! 1 AND 0x7F)) OR unat (pending r ! 2))"
    and "headerSize + len \<le> length (pending r)"
  shows "FindPduSize (take headerSize (pending r)) = Inr \<lparr>Action = ActionFastPath, Length = int len\<rparr> \<and>
         fst (ReadFrame r) = Inr (take (headerSize + len) (pending r), ActionFastPath) \<and>
         pending (snd (ReadFrame r)) = drop (headerSize + len) (pending r)"
proof (cases "pending r ! 1 AND 0x80 = 0")
  case True
  with assms have ext: "frame_extent (pending r) (eof_err (fin r)) = Inr (headerSize + len, ActionFastPath)"
    by (auto simp: frame_extent_def)
  have "FindPduSize (take headerSize (pending r)) = Inr \<lparr>Action = ActionFastPath, Length = int len\<rparr>"
    using assms True FindPduSize_small[of "pending r ! 0" "pending r ! 1"] by (simp add: take2_nth)
  with ReadFrame_extent_Inr[OF ext] show ?thesis by simp
next
  case False
  have b2: "unat (pending r ! 2) < 256"
    using unsigned_less[of "pending r ! 2", where ?'a = nat] by simp
  have len: "len = unat (pending r ! 1 AND 0x7F) * 256 + unat (pending r ! 2)"
    using assms(4) False nat_or_push8[OF b2] by simp
  with assms False have ext: "frame_extent (pending r) (eof_err (fin r)) = Inr (headerSize + len, ActionFastPath)"
    by (auto simp: frame_extent_def)
  have "3 \<le> length (pending r)" using assms False by simp
  then have "FindPduSize (take headerSize (pending r)) = Inr \<lparr>Action = ActionFastPath, Length = int len\<rparr>"
    using assms(2,3) False len FindPduSize_large[of "pending r ! 0" "pending r ! 1" "pending r ! 2"]
    by (simp add: take3_nth)
  with ReadFrame_extent_Inr[OF ext] show ?thesis by simp
qed

theorem ReadFrame_FastPath_frame_witness:
  "fst (ReadFrame \<lparr>chunks = [[0x00], [0x05, 0x0A], [0x0B, 0x0C, 0x0D, 0x0E, 0xFF]], fin = EOF\<rparr>)
     = Inr ([0x00, 0x05, 0x0A, 0x0B, 0x0C, 0x0D, 0x0E], ActionFastPath) \<and>
   pending (snd (ReadFrame \<lparr>chunks = [[0x00], [0x05, 0x0A], [0x0B, 0x0C, 0x0D, 0x0E, 0xFF]], fin = EOF\<rparr>))
     = [0xFF] \<and>
   FindPduSize [0x00, 0x05] = Inr \<lparr>Action = ActionFastPath, Length = 5\<rparr> \<and>
   FindPduSize [0x00, 0x81, 0x02] = Inr \<lparr>Action = ActionFastPath, Length = 258\<rparr> \<and>
   fst (ReadFrame \<lparr>chunks = [[0x00, 0x81, 0x02] @ replicate 258 0x11 @ [0x22]], fin = EOF\<rparr>)
     = Inr ([0x00, 0x81, 0x02] @ replicate 258 0x11, ActionFastPath)"
proof -
  have a: "push_bit 8 (unat ((0x81 :: byte) AND 0x7F)) OR unat (0x02 :: byte) = 258"
    by (simp add: nat_or_push8)
  show ?thesis
    using ReadFrame_FastPath_frame
      [of "\<lparr>chunks = [[0x00], [0x05, 0x0A], [0x0B, 0x0C, 0x0D, 0x0E, 0xFF]], fin = EOF\<rparr>" 2 5]
      ReadFrame_FastPath_frame
      [of "\<lparr>chunks = [[0x00, 0x81, 0x02] @ replicate 258 0x11 @ [0x22]], fin = EOF\<rparr>" 3 258]
      a
    by (simp add: pending_def)
qed

text \<open>
  C2. A stream that starts with a TPKT header (first byte 3, bytes 2-3 a big-endian total length
  of at least 4) and holds the whole frame: \<open>ReadFrame\<close> returns exactly the first \<open>totalLen\<close>
  bytes as one X224 frame, whose payload (the bytes after the 4-byte header) has \<open>totalLen - 4\<close>
  bytes, and leaves the rest unread. The witness is the stream 03 00 00 08 AA BB CC DD.
\<close>

theorem ReadFrame_TPKT_frame:
  assumes "4 \<le> length (pending r)"
    and "pending r ! 0 = 0x03"
    and "totalLen = unat (pending r ! 2) * 256 + unat (pending r ! 3)"
    and "4 \<le> totalLen"
    and "totalLen \<le> length (pending r)"
  shows "FindPduSize (take 4 (pending r)) = Inr \<lparr>Action = ActionX224, Length = int totalLen\<rparr> \<and>
         fst (ReadFrame r) = Inr (take totalLen (pending r), ActionX224) \<and>
         pending (snd (ReadFrame r)) = drop totalLen (pending r) \<and>
         length (drop 4 (take totalLen (pending r))) = totalLen - 4"
proof -
  have a: "(3::byte) AND 3 = 3" by simp
  from assms a have ext: "frame_extent (pending r) (eof_err (fin r)) = Inr (totalLen, ActionX224)"
    by (auto simp: frame_extent_def)
  have "FindPduSize (take 4 (pending r)) = Inr \<lparr>Action = ActionX224, Length = int totalLen\<rparr>"
    using assms FindPduSize_tpkt[of "pending r ! 1" "pending r ! 2" "pending r ! 3"]
    by (simp add: take4_nth)
  with ReadFrame_extent_Inr[OF ext] assms show ?thesis by simp
qed

theorem ReadFrame_TPKT_frame_witness:
  "fst (ReadFrame \<lparr>chunks = [[0x03, 0x00, 0x00, 0x08, 0xAA, 0xBB, 0xCC, 0xDD]], fin = EOF\<rparr>)
     = Inr ([0x03, 0x00, 0x00, 0x08, 0xAA, 0xBB, 0xCC, 0xDD], ActionX224) \<and>
   pending (snd (ReadFrame \<lparr>chunks = [[0x03, 0x00, 0x00, 0x08, 0xAA, 0xBB, 0xCC, 0xDD]], fin = EOF\<rparr>)) = [] \<and>
   FindPduSize [0x03, 0x00, 0x00, 0x08] = Inr \<lparr>Action = ActionX224, Length = 8\<rparr> \<and>
   drop 4 [0x03, 0x00, 0x00, 0x08, 0xAA, 0xBB, 0xCC, 0xDD :: byte] = [0xAA, 0xBB, 0xCC, 0xDD]"
  using ReadFrame_TPKT_frame
    [of "\<lparr>chunks = [[0x03, 0x00, 0x00, 0x08, 0xAA, 0xBB, 0xCC, 0xDD]], fin = EOF\<rparr>" 8]
  by (simp add: pending_def)

text \<open>
  C5, as the code has it. A stream that is closed cleanly (\<open>fin r = EOF\<close>) after only a proper
  prefix of a complete frame (any prefix, the empty one included) makes \<open>ReadFrame\<close> fail with
  \<^verbatim>\<open>io.ErrUnexpectedEOF\<close>: it never returns a short frame. A complete frame is a stream that
  \<open>ReadFrame\<close> returns whole.
\<close>

theorem ReadFrame_truncated:
  assumes "fst (ReadFrame rt) = Inr (pending rt, a)"
    and "pending rt = pending r @ rest"
    and "rest \<noteq> []"
    and "fin r = EOF"
  shows "fst (ReadFrame r) = Inl ErrUnexpectedEOF"
proof -
  from ReadFrame_frame_result[of rt] assms(1)
  obtain n where ext: "frame_extent (pending rt) (eof_err (fin rt)) = Inr (n, a)"
    and tk: "pending rt = take n (pending rt)"
    by (auto simp: frame_result_def split: sum.splits)
  from tk have "length (pending rt) \<le> n"
    by (metis length_take min.cobounded2)
  with frame_extent_le[OF ext] have "n = length (pending rt)"
    by simp
  with ext assms(2) have "frame_extent (pending r @ rest) (eof_err (fin rt)) = Inr (length (pending r @ rest), a)"
    by simp
  from frame_extent_prefix[OF this assms(3)]
  have "frame_extent (pending r) (eof_err (fin r)) = Inl (eof_err (fin r))" .
  from ReadFrame_extent_Inl[OF this] assms(4) show ?thesis by (simp add: eof_err_def)
qed

theorem ReadFrame_truncated_witness:
  "fst (ReadFrame \<lparr>chunks = [[0x03, 0x00], [0x00, 0x08, 0xAA]], fin = EOF\<rparr>) = Inl ErrUnexpectedEOF \<and>
   fst (ReadFrame \<lparr>chunks = [[0x00, 0x02, 0x07]], fin = EOF\<rparr>) = Inl ErrUnexpectedEOF \<and>
   fst (ReadFrame \<lparr>chunks = [], fin = EOF\<rparr>) = Inl ErrUnexpectedEOF"
proof -
  have full1: "fst (ReadFrame \<lparr>chunks = [[0x03, 0x00, 0x00, 0x08, 0xAA, 0xBB, 0xCC, 0xDD]], fin = EOF\<rparr>)
        = Inr (pending \<lparr>chunks = [[0x03, 0x00, 0x00, 0x08, 0xAA, 0xBB, 0xCC, 0xDD]], fin = EOF\<rparr>, ActionX224)"
    using ReadFrame_extent_Inr(1)[of "\<lparr>chunks = [[0x03, 0x00, 0x00, 0x08, 0xAA, 0xBB, 0xCC, 0xDD]], fin = EOF\<rparr>" 8 ActionX224]
    by (simp add: pending_def frame_extent_def)
  have full2: "fst (ReadFrame \<lparr>chunks = [[0x00, 0x02, 0x07, 0x08]], fin = EOF\<rparr>)
        = Inr (pending \<lparr>chunks = [[0x00, 0x02, 0x07, 0x08]], fin = EOF\<rparr>, ActionFastPath)"
    using ReadFrame_extent_Inr(1)[of "\<lparr>chunks = [[0x00, 0x02, 0x07, 0x08]], fin = EOF\<rparr>" 4 ActionFastPath]
    by (simp add: pending_def frame_extent_def)
  show ?thesis
    using ReadFrame_truncated[OF full1, of "\<lparr>chunks = [[0x03, 0x00], [0x00, 0x08, 0xAA]], fin = EOF\<rparr>" "[0xBB, 0xCC, 0xDD]"]
      ReadFrame_truncated[OF full2, of "\<lparr>chunks = [[0x00, 0x02, 0x07]], fin = EOF\<rparr>" "[0x08]"]
      ReadFrame_truncated[OF full2, of "\<lparr>chunks = [], fin = EOF\<rparr>" "[0x00, 0x02, 0x07, 0x08]"]
    by (simp add: pending_def)
qed

text \<open>
  C5 as stated also says that this condition is distinct from a clean end of stream with no byte
  pending. \<open>ReadFrame\<close> maps \<^verbatim>\<open>io.EOF\<close> to \<^verbatim>\<open>io.ErrUnexpectedEOF\<close> at its first read too,
  as its documentation says: the empty stream and a truncated frame give the same error.
\<close>

theorem ReadFrame_clean_eof_counterexample:
  "fst (ReadFrame \<lparr>chunks = [], fin = EOF\<rparr>) = Inl ErrUnexpectedEOF \<and>
   fst (ReadFrame \<lparr>chunks = [[0x03, 0x00, 0x00, 0x08, 0xAA]], fin = EOF\<rparr>) = Inl ErrUnexpectedEOF"
proof -
  have "fst (ReadFrame \<lparr>chunks = [], fin = EOF\<rparr>) = Inl ErrUnexpectedEOF"
    by (rule ReadFrame_extent_Inl) (simp add: pending_def frame_extent_def eof_err_def)
  moreover have "fst (ReadFrame \<lparr>chunks = [[0x03, 0x00, 0x00, 0x08, 0xAA]], fin = EOF\<rparr>) = Inl ErrUnexpectedEOF"
    by (rule ReadFrame_extent_Inl) (simp add: pending_def frame_extent_def eof_err_def)
  ultimately show ?thesis by simp
qed


text \<open>
  C6, as the code has it. \<open>FindPduSize\<close> on a non-empty buffer: low two bits 01 or 10 give the
  invalid-action error; low two bits 11 fail with insufficient data below four bytes, with the
  version error when the first byte is not 3, and, when the first byte is 3, with the
  invalid-length error when the big-endian length in bytes 2-3 is below 4.
\<close>

theorem FindPduSize_rejects:
  assumes "buf \<noteq> []"
  shows "(buf ! 0 AND 3 = 1 \<or> buf ! 0 AND 3 = 2 \<longrightarrow>
            FindPduSize buf = Inl (ErrInvalidAction (buf ! 0 AND 3) (buf ! 0))) \<and>
         (buf ! 0 AND 3 = 3 \<and> length buf < 4 \<longrightarrow> FindPduSize buf = Inl ErrInsufficientData) \<and>
         (buf ! 0 AND 3 = 3 \<and> 4 \<le> length buf \<and> buf ! 0 \<noteq> 3 \<longrightarrow>
            FindPduSize buf = Inl (ErrTPKTVersion (buf ! 0))) \<and>
         (buf ! 0 = 3 \<and> 4 \<le> length buf \<and> unat (buf ! 2) * 256 + unat (buf ! 3) < 4 \<longrightarrow>
            FindPduSize buf = Inl (ErrInvalidLength (unat (buf ! 2) * 256 + unat (buf ! 3))))"
proof (intro conjI impI)
  assume "buf ! 0 AND 3 = 1 \<or> buf ! 0 AND 3 = 2"
  then have "buf ! 0 AND 3 \<noteq> 0 \<and> buf ! 0 AND 3 \<noteq> 3" by (rule and3_cases)
  with assms show "FindPduSize buf = Inl (ErrInvalidAction (buf ! 0 AND 3) (buf ! 0))"
    by (simp add: FindPduSize_def size_defs Let_def)
next
  assume "buf ! 0 AND 3 = 3 \<and> length buf < 4"
  with assms show "FindPduSize buf = Inl ErrInsufficientData"
    by (simp add: FindPduSize_def size_defs Let_def)
next
  assume "buf ! 0 AND 3 = 3 \<and> 4 \<le> length buf \<and> buf ! 0 \<noteq> 3"
  with assms show "FindPduSize buf = Inl (ErrTPKTVersion (buf ! 0))"
    by (simp add: FindPduSize_def size_defs Let_def)
next
  assume a: "buf ! 0 = 3 \<and> 4 \<le> length buf \<and> unat (buf ! 2) * 256 + unat (buf ! 3) < 4"
  have b: "(3::byte) AND 3 = 3" by simp
  have "take 2 (drop 2 buf) = [buf ! 2, buf ! 3]"
    using a by (cases buf; cases "tl buf"; cases "tl (tl buf)"; cases "tl (tl (tl buf))") auto
  then have "unat (BigEndian_Uint16 (take 2 (drop 2 buf))) = unat (buf ! 2) * 256 + unat (buf ! 3)"
    by (simp add: BigEndian_Uint16_unat)
  with a b assms show "FindPduSize buf = Inl (ErrInvalidLength (unat (buf ! 2) * 256 + unat (buf ! 3)))"
    by (simp add: FindPduSize_def size_defs Let_def)
qed

theorem FindPduSize_rejects_witness:
  "FindPduSize [0x01] = Inl (ErrInvalidAction 1 0x01) \<and>
   FindPduSize [0x0A, 0x00] = Inl (ErrInvalidAction 2 0x0A) \<and>
   FindPduSize [0x03, 0x00] = Inl ErrInsufficientData \<and>
   FindPduSize [0x07, 0x00, 0x00, 0x08] = Inl (ErrTPKTVersion 0x07) \<and>
   FindPduSize [0x03, 0x00, 0x00, 0x03] = Inl (ErrInvalidLength 3)"
  using FindPduSize_rejects[of "[0x01]"] FindPduSize_rejects[of "[0x0A, 0x00]"]
    FindPduSize_rejects[of "[0x03, 0x00]"] FindPduSize_rejects[of "[0x07, 0x00, 0x00, 0x08]"]
    FindPduSize_rejects[of "[0x03, 0x00, 0x00, 0x03]"]
  by simp


text \<open>
  C6 as stated promises the invalid-length error for every first byte with low bits 11. The
  version check comes first: with first byte 07 and length 2 the error is the version error.
\<close>

theorem FindPduSize_version_before_length_counterexample:
  "FindPduSize [0x07, 0x00, 0x00, 0x02] = Inl (ErrTPKTVersion 0x07) \<and>
   FindPduSize [0x07, 0x00, 0x00, 0x02] \<noteq> Inl (ErrInvalidLength 2)"
  by (simp add: FindPduSize_def size_defs Let_def)


text \<open>
  C8, as the code has it. \<open>NewResp\<close> sets the version to 3390 (\<^verbatim>\<open>3389 + 1\<close>, "Version 1"), the
  connection PDU, the certificate chain and the server address to the values supplied, leaves
  every other field at its zero value, and returns no error.
\<close>

theorem NewResp_fields:
  "NewResp serverAddr x224Pdu x509Chain =
     (\<lparr>Version = 3390,
       Error = \<lparr>ErrorCode = 0, HttpStatusCode = 0, WsaLastError = 0, TlsAlertCode = 0\<rparr>,
       Destination = [], ProxyAuth = [], ServerAuth = [], PreconnectionBlob = [],
       X224ConnectionPdu = x224Pdu, ServerCertChain = x509Chain, ServerAddr = serverAddr\<rparr>, None)"
  by (simp add: NewResp_def)


text \<open>
  C8 as stated leaves every field other than the version, the connection PDU and the certificate
  chain absent. The server address is not: it is the address supplied (here "h:1").
\<close>

theorem NewResp_ServerAddr_counterexample:
  "ServerAddr (fst (NewResp [0x68, 0x3A, 0x31] (Some [0x03, 0x00, 0x00, 0x04]) (Some [[0x30, 0x00]])))
     = [0x68, 0x3A, 0x31] \<and>
   ServerAddr (fst (NewResp [0x68, 0x3A, 0x31] (Some [0x03, 0x00, 0x00, 0x04]) (Some [[0x30, 0x00]]))) \<noteq> []"
  by (simp add: NewResp_def)

text \<open>
  C10. \<open>Write\<close> of the WebSocket adapter returns \<open>len(p)\<close> as the count whatever
  \<^verbatim>\<open>WriteMessage\<close> returns: when it fails with \<open>e\<close>, the caller gets the full count together
  with \<open>e\<close>.
\<close>

theorem Write_count:
  "fst (fst (Write WriteMessage ws p)) = int (length p) \<and>
   (fst (WriteMessage ws BinaryMessage p) = Some e \<longrightarrow>
      fst (Write WriteMessage ws p) = (int (length p), Some e))"
  by (cases "WriteMessage ws BinaryMessage p") (simp add: Write_def)

theorem Write_count_witness:
  "fst (Write (\<lambda>ws t d. (Some (ErrOther 1), ws)) () [0x01, 0x02, 0x03]) = (3, Some (ErrOther 1))"
  using Write_count[of "\<lambda>ws t d. (Some (ErrOther 1), ws)" "()" "[0x01, 0x02, 0x03]" "ErrOther 1"]
  by simp

text \<open>
  C7. A buffer that \<open>Unmarshal\<close> accepts (one validly encoded structure and nothing else),
  followed by one or more extra bytes, is refused with the trailing-data error, which counts the
  extra bytes.
\<close>

theorem Unmarshal_trailing_data:
  assumes "Unmarshal legacy enc = Inr pdu" and "extra \<noteq> []"
  shows "Unmarshal legacy (enc @ extra) = Inl (ErrTrailingData (length extra))"
proof -
  from assms(1) have "asn1_Unmarshal legacy enc = Inr (pdu, [])"
    by (auto simp: Unmarshal_def split: sum.splits if_splits)
  then have "asn1_Unmarshal legacy (enc @ extra) = Inr (pdu, [] @ extra)"
    unfolding asn1_Unmarshal_def by (rule parseField_noParams_append)
  with assms(2) show ?thesis by (simp add: Unmarshal_def)
qed

theorem Unmarshal_trailing_data_witness:
  "Unmarshal (\<lambda>t b. Inr b) ([0x30, 0x05, 0xA0, 0x03, 0x02, 0x01, 0x01] @ [0x00]) = Inl (ErrTrailingData 1)"
proof -
  have "Unmarshal (\<lambda>t b. Inr b) [0x30, 0x05, 0xA0, 0x03, 0x02, 0x01, 0x01] = Inr (zeroPdu\<lparr>Version := 1\<rparr>)"
    by code_simp
  from Unmarshal_trailing_data[OF this, of "[0x00]"] show ?thesis by simp
qed

end
